theory Spec2Isabelle
  imports Main
begin

section \<open>The welcome tool (tools/welcome.py)\<close>

subsection \<open>Values, exceptions, requests and results\<close>

text \<open>
  The tool receives a \<open>ToolUse\<close> dictionary whose \<open>input\<close> entry is a dictionary from
  field names to JSON values. The code only compares such a value with a string literal,
  formats it with \<open>str()\<close> and hands it to \<open>f.write\<close>, so a value is either a Python
  \<open>str\<close>, or a value of another type, kept as the name of its type and its \<open>str()\<close>
  rendering (\<open>NonStr ''int'' ''5''\<close> is the integer 5).
\<close>

datatype pyval = Str string | NonStr string string

fun py_str :: "pyval \<Rightarrow> string" where
  "py_str (Str s) = s"
| "py_str (NonStr ty rendering) = rendering"

text \<open>
  The exceptions the tool can meet. \<open>OSError\<close> carries the message the platform gives it.
  \<open>str_exception\<close> is Python's \<open>str(e)\<close>; for a \<open>KeyError\<close> that is the \<open>repr\<close> of the key.
\<close>

datatype py_exception =
    KeyError string
  | ValueError string
  | TypeError string
  | OSError string
  | RuntimeError string
  | UnicodeEncodeError string

fun str_exception :: "py_exception \<Rightarrow> string" where
  "str_exception (KeyError k) = [CHR 0x27] @ k @ [CHR 0x27]"
| "str_exception (ValueError m) = m"
| "str_exception (TypeError m) = m"
| "str_exception (OSError m) = m"
| "str_exception (RuntimeError m) = m"
| "str_exception (UnicodeEncodeError m) = m"

record tool_use =
  toolUseId :: string
  input :: "string \<rightharpoonup> pyval"

datatype status = Success | Error

text \<open>
  A \<open>ToolResult\<close>; its \<open>content\<close> is a list of blocks \<open>{"text": ...}\<close>, modelled by the
  list of their texts.
\<close>

record tool_result =
  result_toolUseId :: string
  status :: status
  content :: "string list"

subsection \<open>The file \<open>cwd/.welcome\<close>\<close>

text \<open>
  The only part of the file system the tool touches is the path \<open>cwd/.welcome\<close>.
  \<open>welcome_file\<close> is the text stored there (\<open>None\<close> when the path does not exist),
  \<open>linesep\<close> is the platform's \<open>os.linesep\<close>, and the two faults say whether
  \<open>open(path, "r")\<close> followed by \<open>read()\<close>, respectively \<open>open(path, "w")\<close>, raises, and
  with which message (a permission, a directory in place of the file, a read-only
  medium, bytes that do not decode). Both \<open>open\<close> calls name no encoding, so the text is
  written in the encoding of the locale: \<open>encode_fault\<close> gives, for a text that this
  encoding cannot take (a lone surrogate, a character outside the code page), the
  message of the \<open>UnicodeEncodeError\<close> that \<open>f.write\<close> raises. Faults of the device
  while writing or closing (a full disk) are not modelled.
\<close>

record filesystem =
  welcome_file :: "string option"
  linesep :: string
  read_fault :: "string option"
  write_fault :: "string option"
  encode_fault :: "string \<Rightarrow> string option"

abbreviation LF :: char where "LF \<equiv> CHR 0x0A"
abbreviation CR :: char where "CR \<equiv> CHR 0x0D"

text \<open>
  Both \<open>open\<close> calls are in text mode with the default \<open>newline=None\<close>: writing replaces
  every line feed by \<open>os.linesep\<close>, reading replaces a carriage return followed by a
  line feed, and a lone carriage return, by a line feed.
\<close>

definition translate_newlines :: "string \<Rightarrow> string \<Rightarrow> string" where
  "translate_newlines sep s = concat (map (\<lambda>c. if c = LF then sep else [c]) s)"

fun universal_newlines :: "string \<Rightarrow> string" where
  "universal_newlines [] = []"
| "universal_newlines [c] = [if c = CR then LF else c]"
| "universal_newlines (c # d # ds) =
     (if c = CR \<and> d = LF then LF # universal_newlines ds
      else if c = CR then LF # universal_newlines (d # ds)
      else c # universal_newlines (d # ds))"

subsection \<open>The default text\<close>

fun join_lines :: "string list \<Rightarrow> string" where
  "join_lines [] = []"
| "join_lines [l] = l"
| "join_lines (l # m # ls) = l @ LF # join_lines (m # ls)"

text \<open>
  \<open>DEFAULT_WELCOME_TEXT\<close>, line by line as in the source. A character outside ASCII
  is spelled by its UTF-8 bytes, as the source file stores it, and the quote characters
  by their codes.
\<close>

definition DEFAULT_WELCOME_TEXT :: string where
  "DEFAULT_WELCOME_TEXT = join_lines
    [
     ''*.*'',
     ''*.*'',
     ''*.*'',
     ''*welcome to strands agent builder!*'',
     ''# '' @ [CHR 0xF0, CHR 0x9F, CHR 0x9A, CHR 0x80] @ '' STRANDS AGENTS SDK: Self-Extending AI Tool Building'',
     [],
     ''## About Agent Builder'',
     ''I am the Strands Agent Builder - an AI assistant dedicated to helping you build and extend AI tools using the Strands Agents framework. I'' @ [CHR 0x27] @ ''m designed to make the development of AI agents more accessible and powerful.'',
     [],
     ''GitHub Repository: https://github.com/strands-agents/agent-builder'',
     [],
     ''## SDKs and Tools'',
     [],
     ''### '' @ [CHR 0xF0, CHR 0x9F, CHR 0x93, CHR 0xA6] @ '' SDK Source'',
     ''https://github.com/strands-agents/sdk-python'',
     [],
     ''### '' @ [CHR 0xF0, CHR 0x9F, CHR 0xA7, CHR 0xB0] @ '' Tools Repository'',
     ''https://github.com/strands-agents/tools'',
     [],
     ''## Installation & Updates:'',
     [],
     ''### '' @ [CHR 0xF0, CHR 0x9F, CHR 0x93, CHR 0xA6] @ '' Installing Strands'',
     [CHR 0x60, CHR 0x60, CHR 0x60] @ ''bash'',
     ''pip install strands-agents strands-agents-tools'',
     [CHR 0x60, CHR 0x60, CHR 0x60],
     [],
     ''### '' @ [CHR 0xF0, CHR 0x9F, CHR 0x94, CHR 0x84] @ '' Updating Agent Builder'',
     [CHR 0x60, CHR 0x60, CHR 0x60] @ ''bash'',
     ''pipx install git+https://github.com/strands-agents/agent-builder.git --force'',
     ''# or'',
     ''pipx install strands-agent-builder --force'',
     [CHR 0x60, CHR 0x60, CHR 0x60],
     [],
     ''## Quick Reference Guide:'',
     [],
     ''### 1'' @ [CHR 0xEF, CHR 0xB8, CHR 0x8F, CHR 0xE2, CHR 0x83, CHR 0xA3] @ '' Core Imports'',
     [CHR 0x60, CHR 0x60, CHR 0x60] @ ''python'',
     ''from strands import Agent, tool'',
     ''from strands_tools import load_tool, shell, editor'',
     [],
     ''agent = Agent(tools=[load_tool, shell, editor])'',
     [CHR 0x60, CHR 0x60, CHR 0x60],
     [],
     ''### 2'' @ [CHR 0xEF, CHR 0xB8, CHR 0x8F, CHR 0xE2, CHR 0x83, CHR 0xA3] @ '' Tool Definition Pattern'',
     [CHR 0x60, CHR 0x60, CHR 0x60] @ ''python'',
     ''from strands import tool'',
     [],
     ''@tool'',
     ''def my_tool(param1: str, param2: int = 42) -> dict:'',
     ''    '' @ [CHR 0x22, CHR 0x22, CHR 0x22],
     ''    Tool description - explain what it does.'',
     [],
     ''    Args:'',
     ''        param1: Description of first parameter'',
     ''        param2: Description of second parameter'',
     [],
     ''    Returns:'',
     ''        Dictionary with results'',
     ''    '' @ [CHR 0x22, CHR 0x22, CHR 0x22],
     ''    try:'',
     ''        # Implementation'',
     ''        result = do_something(param1, param2)'',
     ''        return {'',
     ''            '' @ [CHR 0x22] @ ''status'' @ [CHR 0x22] @ '': '' @ [CHR 0x22] @ ''success'' @ [CHR 0x22] @ '', '',
     ''            '' @ [CHR 0x22] @ ''content'' @ [CHR 0x22] @ '': [{'' @ [CHR 0x22] @ ''text'' @ [CHR 0x22] @ '': f'' @ [CHR 0x22, CHR 0xE2, CHR 0x9C, CHR 0x85] @ '' Result: {result}'' @ [CHR 0x22] @ ''}]'',
     ''        }'',
     ''    except Exception as e:'',
     ''        return {'',
     ''            '' @ [CHR 0x22] @ ''status'' @ [CHR 0x22] @ '': '' @ [CHR 0x22] @ ''error'' @ [CHR 0x22] @ '','',
     ''            '' @ [CHR 0x22] @ ''content'' @ [CHR 0x22] @ '': [{'' @ [CHR 0x22] @ ''text'' @ [CHR 0x22] @ '': f'' @ [CHR 0x22, CHR 0xE2, CHR 0x9D, CHR 0x8C] @ '' Error: {str(e)}'' @ [CHR 0x22] @ ''}]'',
     ''        }'',
     [CHR 0x60, CHR 0x60, CHR 0x60],
     [],
     ''### 3'' @ [CHR 0xEF, CHR 0xB8, CHR 0x8F, CHR 0xE2, CHR 0x83, CHR 0xA3] @ '' Create & Use Tools Instantly'',
     [],
     ''- cwd()/tools/*.py directory is hot-reloaded. I can create tools and use them immediately.'',
     ''- agent.tool.load_tool(name='' @ [CHR 0x22] @ ''tool_name'' @ [CHR 0x22] @ '', path='' @ [CHR 0x22] @ ''tool_path'' @ [CHR 0x22] @ '') allows to load from different directories.'',
     [],
     [CHR 0x60, CHR 0x60, CHR 0x60] @ ''python'',
     ''# Create tool'',
     ''agent.tool.editor(command='' @ [CHR 0x22] @ ''create'' @ [CHR 0x22] @ '', path='' @ [CHR 0x22] @ ''tools/data_tool.py'' @ [CHR 0x22] @ '', file_text='' @ [CHR 0x22] @ ''...'' @ [CHR 0x22] @ '')'',
     [],
     ''# Use immediately - no restart needed'',
     ''agent.tool.data_tool('' @ [CHR 0x22] @ ''parameter'' @ [CHR 0x22] @ '')'',
     [CHR 0x60, CHR 0x60, CHR 0x60],
     [],
     ''### 4'' @ [CHR 0xEF, CHR 0xB8, CHR 0x8F, CHR 0xE2, CHR 0x83, CHR 0xA3] @ '' Tool Building Process'',
     ''1. **Identify need** for new capability'',
     ''2. **Implement** code in tools directory'',
     ''3. **Use immediately** with agent.tool.tool_name()'',
     ''4. **Enhance iteratively** without restarts'',
     [],
     ''Available built-in tools:'',
     ''- memory'',
     ''- file_read'',
     ''- file_write'',
     ''- shell'',
     ''- editor'',
     ''- http_request'',
     ''- python_repl'',
     ''- calculator'',
     ''- retrieve'',
     ''- use_aws'',
     ''- load_tool'',
     ''- environment'',
     ''- use_llm'',
     ''- think'',
     ''- journal'',
     ''- image_reader'',
     ''- generate_image'',
     ''- nova_reels'',
     ''- agent_graph'',
     ''- swarm'',
     ''- workflow'',
     ''- slack'',
     ''- stop'',
     ''- speak'',
     ''- store_in_kb'',
     ''- strand'',
     ''- welcome'',
     [],
     ''I'' @ [CHR 0x27] @ ''m the Strands Agent Builder, your AI assistant for creating and extending AI tools! Let'' @ [CHR 0x27] @ ''s build something amazing together.'',
     [],
     ''Type *exit* to quit.''
    ]"

subsection \<open>The tool\<close>

text \<open>
  The body of the \<open>try\<close> block. It returns the result or the exception raised, together
  with the file system as the block leaves it: when \<open>f.write\<close> rejects a content that is
  not a \<open>str\<close>, or a text that the encoding cannot take, \<open>open(path, "w")\<close> has already
  emptied the file.
\<close>

definition welcome_try ::
  "string \<Rightarrow> pyval \<Rightarrow> (string \<rightharpoonup> pyval) \<Rightarrow> filesystem \<Rightarrow> (py_exception + tool_result) \<times> filesystem" where
  "welcome_try tool_use_id action tool_input fs =
    (if action = Str ''edit'' then
       (case tool_input ''content'' of
          None \<Rightarrow> (Inl (ValueError ''content is required for edit action''), fs)
        | Some new_content \<Rightarrow>
            (case write_fault fs of
               Some m \<Rightarrow> (Inl (OSError m), fs)
             | None \<Rightarrow>
                 (case new_content of
                    NonStr ty rendering \<Rightarrow>
                      (Inl (TypeError (''write() argument must be str, not '' @ ty)),
                       fs\<lparr>welcome_file := Some []\<rparr>)
                  | Str s \<Rightarrow>
                      (case encode_fault fs s of
                         Some m \<Rightarrow>
                           (Inl (UnicodeEncodeError m), fs\<lparr>welcome_file := Some []\<rparr>)
                       | None \<Rightarrow>
                           (Inr \<lparr>result_toolUseId = tool_use_id, status = Success,
                                 content = [''Welcome text updated successfully'']\<rparr>,
                            fs\<lparr>welcome_file := Some (translate_newlines (linesep fs) s)\<rparr>)))))
     else if action = Str ''view'' then
       (case welcome_file fs of
          Some stored \<Rightarrow>
            (case read_fault fs of
               Some m \<Rightarrow> (Inl (OSError m), fs)
             | None \<Rightarrow>
                 (Inr \<lparr>result_toolUseId = tool_use_id, status = Success,
                       content = [''*.*'' @ [LF] @ universal_newlines stored]\<rparr>, fs))
        | None \<Rightarrow>
            (Inr \<lparr>result_toolUseId = tool_use_id, status = Success,
                  content = [''*welcome to strands!*'' @ [LF] @ DEFAULT_WELCOME_TEXT]\<rparr>, fs))
     else
       (Inr \<lparr>result_toolUseId = tool_use_id, status = Error,
             content = [''Unknown action: '' @ py_str action]\<rparr>, fs))"

text \<open>
  The function \<open>welcome\<close> of the source (the name is a command of Isabelle, hence the
  suffix). \<open>tool_input["action"]\<close> is read before the \<open>try\<close>, so a request
  without that field leaves the function with a \<open>KeyError\<close> (and an untouched file);
  every exception of the body becomes an error result.
\<close>

definition welcome_tool :: "tool_use \<Rightarrow> filesystem \<Rightarrow> py_exception + (tool_result \<times> filesystem)" where
  "welcome_tool tool fs =
    (case input tool ''action'' of
       None \<Rightarrow> Inl (KeyError ''action'')
     | Some action \<Rightarrow>
         (case welcome_try (toolUseId tool) action (input tool) fs of
            (Inr r, fs') \<Rightarrow> Inr (r, fs')
          | (Inl e, fs') \<Rightarrow>
              Inr (\<lparr>result_toolUseId = toolUseId tool, status = Error,
                    content = [''Error: '' @ str_exception e]\<rparr>, fs')))"

section \<open>The history file path (\<open>get_history_file_path\<close> in utils/user_input.py)\<close>

text \<open>
  What the function reads from its environment: the value of the variable
  \<open>STRANDS_INPUT_HISTORY_PATH\<close> (\<open>None\<close> when it is not set), the home directory as
  \<open>Path.home()\<close> finds it (the components of an absolute POSIX path; \<open>None\<close> when it
  cannot be determined, a \<open>RuntimeError\<close>), whether the directory \<open>~/.strands\<close> exists,
  and whether \<open>mkdir\<close> on it raises, and with which message.
\<close>

record history_env =
  STRANDS_INPUT_HISTORY_PATH :: "string option"
  home :: "string list option"
  strands_dir_exists :: bool
  mkdir_fault :: "string option"

text \<open>\<open>str\<close> of an absolute POSIX path.\<close>

fun str_path :: "string list \<Rightarrow> string" where
  "str_path [] = ''/''"
| "str_path (c # cs) = concat (map (\<lambda>x. ''/'' @ x) (c # cs))"

text \<open>
  \<open>home_or_fallback\<close> is the function from its second comment on.
  \<open>mkdir(parents=True, exist_ok=True)\<close> returns \<open>None\<close>, which is false: when the
  directory is missing, the function creates it and goes on to the last \<open>return\<close>.
  \<open>if history_path:\<close> is false for \<open>None\<close> and for the empty string.
\<close>

definition home_or_fallback :: "history_env \<Rightarrow> (py_exception + string) \<times> history_env" where
  "home_or_fallback env =
    (case home env of
       None \<Rightarrow> (Inl (RuntimeError ''Could not determine home directory.''), env)
     | Some h \<Rightarrow>
         (let home_path = h @ [''.strands'', ''input_history''] in
          if strands_dir_exists env then (Inr (str_path home_path), env)
          else
            (case mkdir_fault env of
               Some m \<Rightarrow> (Inl (OSError m), env)
             | None \<Rightarrow> (Inr ''/tmp/input_history'', env\<lparr>strands_dir_exists := True\<rparr>))))"

definition get_history_file_path :: "history_env \<Rightarrow> (py_exception + string) \<times> history_env" where
  "get_history_file_path env =
    (case STRANDS_INPUT_HISTORY_PATH env of
       None \<Rightarrow> home_or_fallback env
     | Some history_path \<Rightarrow>
         if history_path \<noteq> [] then (Inr history_path, env) else home_or_fallback env)"

section \<open>The input helper (\<open>get_user_input_async\<close> in utils/user_input.py)\<close>

subsection \<open>The buffer, the advisor and what is shown\<close>

text \<open>
  Text is a list over any type \<open>'c\<close> of characters: the code only takes its length
  (in code points) and compares it. Durations and times are in milliseconds.

  The buffer is the \<open>Buffer\<close> of the prompt, of which the code reads and assigns \<open>text\<close>
  and \<open>cursor_position\<close>. It is an object and always true in a condition.
\<close>

record 'c buffer =
  buffer_text :: "'c list"
  cursor_position :: nat

text \<open>
  What the assistant agent returns is an object of which the code takes the truth value
  and the \<open>len\<close>: a string, or an object with a given truth value whose \<open>len()\<close> is a
  number or raises a \<open>TypeError\<close> with a message.
\<close>

datatype 'c response = Text "'c list" | Object bool "'c list + nat"

fun truthy :: "'c response \<Rightarrow> bool" where
  "truthy (Text t) = (t \<noteq> [])"
| "truthy (Object b l) = b"

fun len :: "'c response \<Rightarrow> 'c list + nat" where
  "len (Text t) = Inr (length t)"
| "len (Object b l) = l"

text \<open>
  What is raised, with its \<open>str()\<close>: an instance of \<open>Exception\<close>, which
  \<open>except Exception\<close> catches, or another \<open>BaseException\<close> (\<open>KeyboardInterrupt\<close>,
  \<open>SystemExit\<close>), which it lets through.
\<close>

datatype 'c raised = Exception "'c list" | BaseException "'c list"

text \<open>
  One run of \<open>run_assistant_in_thread\<close> on the worker thread: when it ends, counted
  from its submission (\<open>None\<close>: never), how it ends, and what the worker thread (the
  tools and the callback handler of the agent) does to the fields of the buffer in the
  meantime, by means that fire no event of the buffer (an assignment through the setter
  \<open>Buffer.text\<close> on the worker thread, which would run the handlers there, outside the
  event loop, is not modelled). The agent is the function from the number of earlier
  invocations and the text to the run; \<open>None\<close> is the absent agent.
\<close>

datatype 'c outcome = Returns "'c response" | Raises "'c raised"

record 'c advisor_run =
  finishes :: "nat option"
  outcome :: "'c outcome"
  meanwhile :: "'c buffer \<Rightarrow> 'c buffer"

type_synonym 'c agent = "nat \<Rightarrow> 'c list \<Rightarrow> 'c advisor_run"

text \<open>
  What the advisory path sends to the terminal: the thinking indicator, the blanks that
  clear it, the text of \<open>print(e)\<close>, and the notice \<open>(Assistant error: ...)\<close>.
  \<open>pprint\<close> of rich has no parameter \<open>end\<close>, so the call \<open>pprint(suggestion_text, end=...)\<close>
  shows nothing and raises a \<open>TypeError\<close>; \<open>PrintedEndError\<close> is \<open>print(e)\<close> of that error.
\<close>

datatype 'c shown =
    Thinking
  | ClearThinking
  | Printed "'c list"
  | PrintedEndError
  | AssistantError "'c list"

subsection \<open>\<open>launch_assistant\<close>\<close>

definition result_timeout :: nat where
  "result_timeout = 10000"

text \<open>
  \<open>future.result(timeout=10.0)\<close>: the result or the exception of the worker when it
  ends within the bound (a worker that ends at the bound exactly counts as in time), a
  \<open>TimeoutError\<close> when the bound passes first; with the time the calling thread has
  waited.
\<close>

datatype 'c waited = Got "'c response" | Threw "'c raised" | TimedOut

definition future_result :: "nat \<Rightarrow> 'c advisor_run \<Rightarrow> 'c waited \<times> nat" where
  "future_result bound run =
    (case finishes run of
       None \<Rightarrow> (TimedOut, bound)
     | Some d \<Rightarrow>
         if d \<le> bound then
           (case outcome run of Returns r \<Rightarrow> (Got r, d) | Raises e \<Rightarrow> (Threw e, d))
         else (TimedOut, bound))"

text \<open>
  Leaving \<open>with concurrent.futures.ThreadPoolExecutor() as executor\<close> calls
  \<open>executor.shutdown(wait=True)\<close>, which joins the worker thread: the block is left
  when the worker ends, at the earliest when \<open>waited\<close> has passed, and never when
  the worker never ends.
\<close>

definition executor_exit :: "'c advisor_run \<Rightarrow> nat \<Rightarrow> nat option" where
  "executor_exit run waited = map_option (max waited) (finishes run)"

text \<open>
  The body of the \<open>try\<close> once \<open>future.result\<close> is back: what is shown, and the exception
  that \<open>except Exception\<close> does not catch. A suggestion that is true and not empty gets
  the indicator cleared and then meets the \<open>TypeError\<close> of \<open>pprint\<close>. \<open>str()\<close> of the
  \<open>TimeoutError\<close> is empty.
\<close>

definition display_suggestion :: "'c waited \<Rightarrow> 'c shown list \<times> 'c raised option" where
  "display_suggestion w =
    (case w of
       Got suggestion_text \<Rightarrow>
         (if truthy suggestion_text then
            (case len suggestion_text of
               Inr n \<Rightarrow> (if n > 0 then ([ClearThinking, PrintedEndError], None)
                          else ([], None))
             | Inl m \<Rightarrow> ([Printed m], None))
          else ([], None))
     | Threw (Exception m) \<Rightarrow> ([Printed m], None)
     | Threw (BaseException m) \<Rightarrow> ([], Some (BaseException m))
     | TimedOut \<Rightarrow> ([Printed []], None))"

text \<open>
  What a launch leaves: the buffer, what was shown, the time the launch took, the
  exception that left it, whether the agent was invoked, and whether the assignment
  \<open>buffer.text = current_input\<close> of the \<open>finally\<close> clause changed the text. The setter of
  \<open>Buffer.text\<close> fires \<open>on_text_changed\<close> exactly when it changes the text.
\<close>

record 'c launched =
  buffer_after :: "'c buffer"
  shown :: "'c shown list"
  blocked_for :: nat
  escaped :: "'c raised option"
  invoked :: bool
  refired :: bool

text \<open>
  \<open>launch_assistant\<close> is a coroutine without an \<open>await\<close>: it runs on the thread of the
  event loop from its first line to its last, and \<open>blocked_for\<close> is the time that takes.
  The result is \<open>None\<close> when the function never returns. \<open>n\<close> is the number of earlier
  invocations of the agent.
\<close>

definition launch_assistant ::
  "'c agent option \<Rightarrow> nat \<Rightarrow> 'c list \<Rightarrow> 'c buffer \<Rightarrow> 'c launched option" where
  "launch_assistant agent_arg n text_arg buffer_arg =
    (case agent_arg of
       None \<Rightarrow>
         Some \<lparr>buffer_after = buffer_arg, shown = [], blocked_for = 0, escaped = None,
               invoked = False, refired = False\<rparr>
     | Some a \<Rightarrow>
         (let current_input = buffer_text buffer_arg;
              cursor = cursor_position buffer_arg;
              run = a n text_arg;
              (w, waited) = future_result result_timeout run;
              (lines, exc) = display_suggestion w
          in case executor_exit run waited of
               None \<Rightarrow> None
             | Some left \<Rightarrow>
                 Some \<lparr>buffer_after =
                         (meanwhile run buffer_arg)\<lparr>buffer_text := current_input,
                                                     cursor_position := cursor\<rparr>,
                       shown = Thinking # lines, blocked_for = left, escaped = exc,
                       invoked = True,
                       refired = (buffer_text (meanwhile run buffer_arg) \<noteq> current_input)\<rparr>))"

subsection \<open>The session: the shared prompt, its handlers and the event loop\<close>

text \<open>
  The variables of one call of \<open>get_user_input_async\<close> that its handler and its tasks
  share: the agent and the idle threshold it was given, \<open>typing_timer\<close> (the position
  of a task, \<open>None\<close> for Python's \<open>None\<close>) and \<open>current_text\<close>.
\<close>

record 'c closure =
  agent :: "'c agent option"
  typing_timeout :: nat
  typing_timer :: "nat option"
  current_text :: "'c list"

text \<open>
  A task made by \<open>asyncio.create_task(trigger_assistant_after_pause(...))\<close>: the call
  whose handler made it, the text it was given, when it was made, when its
  \<open>asyncio.sleep\<close> ends, and where it stands. A task sleeps, then runs; \<open>cancel()\<close> ends
  a sleeping task at once and marks a running one (\<open>Stopping\<close>), which ends as cancelled
  when its coroutine returns. \<open>done()\<close> is true of a task that is cancelled or finished.
\<close>

datatype task_state = Sleeping | Running | Stopping | Cancelled | Finished

record 'c timer_task =
  owner :: nat
  task_text :: "'c list"
  started :: nat
  wakes :: nat
  state :: task_state

text \<open>
  \<open>session\<close> is the one \<open>PromptSession\<close> of the module, which every call uses, together
  with the event loop. \<open>closures\<close> are the calls made so far, in their order: line 175
  adds the handler of a call with an agent to \<open>on_text_changed\<close> of the buffer, and
  nothing ever removes it. \<open>tasks\<close> are the tasks of the event loop in the order of
  their making. \<open>calls\<close> lists the texts the agent was invoked with, \<open>uncaught\<close> the
  exceptions that left a task (what the event loop then does with a
  \<open>KeyboardInterrupt\<close> or a \<open>SystemExit\<close> is not modelled).
\<close>

record 'c session =
  closures :: "'c closure list"
  tasks :: "'c timer_task list"
  buffer :: "'c buffer"
  clock :: nat
  display :: "'c shown list"
  calls :: "'c list list"
  uncaught :: "'c raised list"

definition min_text_length :: nat where
  "min_text_length = 5"

definition agent_of :: "'c session \<Rightarrow> nat \<Rightarrow> 'c agent option" where
  "agent_of s k = (if k < length (closures s) then agent (closures s ! k) else None)"

text \<open>
  \<open>if typing_timer and not typing_timer.done(): typing_timer.cancel()\<close>, in the call at
  position \<open>k\<close>.
\<close>

definition cancel_timer :: "nat \<Rightarrow> 'c session \<Rightarrow> 'c session" where
  "cancel_timer k s =
    (if k < length (closures s) then
       (case typing_timer (closures s ! k) of
          None \<Rightarrow> s
        | Some i \<Rightarrow>
            if i < length (tasks s) \<and> state (tasks s ! i) = Sleeping
            then s\<lparr>tasks := (tasks s)[i := (tasks s ! i)\<lparr>state := Cancelled\<rparr>]\<rparr>
            else if i < length (tasks s) \<and> state (tasks s ! i) = Running
            then s\<lparr>tasks := (tasks s)[i := (tasks s ! i)\<lparr>state := Stopping\<rparr>]\<rparr>
            else s)
     else s)"

text \<open>The handler \<open>handle_text_change\<close> of the call at position \<open>k\<close>.\<close>

definition handle_text_change :: "nat \<Rightarrow> 'c session \<Rightarrow> 'c session" where
  "handle_text_change k s =
    (let s1 = cancel_timer k s;
         c = closures s1 ! k
     in if k < length (closures s1) \<and> agent c \<noteq> None
           \<and> length (buffer_text (buffer s1)) > min_text_length
           \<and> buffer_text (buffer s1) \<noteq> current_text c
        then s1\<lparr>closures := (closures s1)
                   [k := c\<lparr>current_text := buffer_text (buffer s1),
                           typing_timer := Some (length (tasks s1))\<rparr>],
                tasks := tasks s1 @
                  [\<lparr>owner = k, task_text = buffer_text (buffer s1), started = clock s1,
                    wakes = clock s1 + typing_timeout c, state = Sleeping\<rparr>]\<rparr>
        else s1)"

text \<open>
  \<open>on_text_changed.fire()\<close>: the handlers run in the order in which they were added;
  a call without an agent has added none.
\<close>

definition attached_handler :: "nat \<Rightarrow> 'c session \<Rightarrow> 'c session" where
  "attached_handler k s = (if agent_of s k \<noteq> None then handle_text_change k s else s)"

fun fire :: "nat list \<Rightarrow> 'c session \<Rightarrow> 'c session" where
  "fire [] s = s"
| "fire (k # ks) s = fire ks (attached_handler k s)"

definition on_text_changed :: "'c session \<Rightarrow> 'c session" where
  "on_text_changed s = fire [0..<length (closures s)] s"

text \<open>
  \<open>trigger_assistant_after_pause\<close> from the end of its sleep, for the task at position
  \<open>i\<close>: the task wakes (\<open>wake\<close>), and unless the buffer is empty it launches the
  assistant. The launch holds the thread of the event loop, so the clock moves on by
  the time it takes (\<open>after_launch\<close>); when the \<open>finally\<close> clause changes the text of the
  buffer, the handlers run before the task ends (\<open>finish\<close>). \<open>None\<close>: the launch never
  returns.
\<close>

definition wake :: "nat \<Rightarrow> 'c session \<Rightarrow> 'c session" where
  "wake i s =
    s\<lparr>clock := max (clock s) (wakes (tasks s ! i)),
      tasks := (tasks s)[i := (tasks s ! i)\<lparr>state := Running\<rparr>]\<rparr>"

definition after_launch :: "'c timer_task \<Rightarrow> 'c launched \<Rightarrow> 'c session \<Rightarrow> 'c session" where
  "after_launch t r s =
    s\<lparr>buffer := buffer_after r,
      clock := clock s + blocked_for r,
      display := display s @ shown r @
        (case escaped r of Some (Exception m) \<Rightarrow> [AssistantError m] | _ \<Rightarrow> []),
      calls := calls s @ (if invoked r then [task_text t] else []),
      uncaught := uncaught s @
        (case escaped r of Some (BaseException m) \<Rightarrow> [BaseException m] | _ \<Rightarrow> [])\<rparr>"

definition finish :: "nat \<Rightarrow> 'c session \<Rightarrow> 'c session" where
  "finish i s =
    s\<lparr>tasks := (tasks s)
         [i := (tasks s ! i)\<lparr>state := (if state (tasks s ! i) = Stopping then Cancelled
                                         else Finished)\<rparr>]\<rparr>"

definition trigger_assistant_after_pause :: "nat \<Rightarrow> 'c session \<Rightarrow> 'c session option" where
  "trigger_assistant_after_pause i s =
    (let t = tasks s ! i;
         s0 = wake i s
     in if buffer_text (buffer s0) = [] then Some (finish i s0)
        else
          (case launch_assistant (agent_of s0 (owner t)) (length (calls s0)) (task_text t)
                  (buffer s0) of
             None \<Rightarrow> None
           | Some r \<Rightarrow>
               Some (finish i
                 (if refired r then on_text_changed (after_launch t r s0)
                  else after_launch t r s0))))"

text \<open>
  The task the event loop runs next, up to the time \<open>now\<close>: among the tasks that still
  sleep and whose sleep has ended by then, the one that wakes first, the one made
  earlier of two that wake together.
\<close>

definition due :: "nat \<Rightarrow> 'c timer_task list \<Rightarrow> nat list" where
  "due now ts = filter (\<lambda>i. state (ts ! i) = Sleeping \<and> wakes (ts ! i) \<le> now) [0..<length ts]"

fun earliest :: "'c timer_task list \<Rightarrow> nat \<Rightarrow> nat list \<Rightarrow> nat" where
  "earliest ts best [] = best"
| "earliest ts best (i # is) =
     earliest ts (if wakes (ts ! i) < wakes (ts ! best) then i else best) is"

definition next_due :: "nat \<Rightarrow> 'c timer_task list \<Rightarrow> nat option" where
  "next_due now ts = (case due now ts of [] \<Rightarrow> None | i # is \<Rightarrow> Some (earliest ts i is))"

text \<open>
  The event loop up to the time \<open>now\<close>. A task that runs can make a new one, so the loop
  need not end: \<open>None\<close> is the loop that never comes to rest, or a launch that never
  returns.
\<close>

partial_function (option) advance :: "nat \<Rightarrow> 'c session \<Rightarrow> 'c session option" where
  "advance now s =
    (case next_due now (tasks s) of
       None \<Rightarrow> Some (s\<lparr>clock := max (clock s) now\<rparr>)
     | Some i \<Rightarrow>
         (case trigger_assistant_after_pause i s of
            None \<Rightarrow> None
          | Some s' \<Rightarrow> advance now s'))"

text \<open>
  A text-change event at the time \<open>at\<close>: the prompt puts the new content in the buffer
  and fires \<open>on_text_changed\<close>.
\<close>

definition text_changed :: "nat \<Rightarrow> 'c buffer \<Rightarrow> 'c session \<Rightarrow> 'c session option" where
  "text_changed at b s = map_option (\<lambda>s'. on_text_changed (s'\<lparr>buffer := b\<rparr>)) (advance at s)"

fun run_events :: "(nat \<times> 'c buffer) list \<Rightarrow> 'c session \<Rightarrow> 'c session option" where
  "run_events [] s = Some s"
| "run_events ((at, b) # evs) s =
     (case text_changed at b s of None \<Rightarrow> None | Some s' \<Rightarrow> run_events evs s')"

text \<open>
  How \<open>await response_future\<close> ends: the user accepts the line, or the prompt raises
  \<open>KeyboardInterrupt\<close> or \<open>EOFError\<close>.
\<close>

datatype ending = Accept | KeyboardInterrupt | EOFError

text \<open>The session of a process that has made no call yet.\<close>

definition fresh :: "'c session" where
  "fresh = \<lparr>closures = [], tasks = [], buffer = \<lparr>buffer_text = [], cursor_position = 0\<rparr>,
            clock = 0, display = [], calls = [], uncaught = []\<rparr>"

text \<open>
  The start of a call: its variables, its handler, and the buffer reset to the default
  value, which fires no event.
\<close>

definition begin_call :: "'c list \<Rightarrow> 'c agent option \<Rightarrow> nat \<Rightarrow> 'c session \<Rightarrow> 'c session" where
  "begin_call default_arg agent_arg timeout_arg s =
    s\<lparr>closures := closures s @
         [\<lparr>agent = agent_arg, typing_timeout = timeout_arg, typing_timer = None,
           current_text = []\<rparr>],
      buffer := \<lparr>buffer_text = default_arg, cursor_position = length default_arg\<rparr>\<rparr>"

text \<open>
  The whole call, in the session \<open>s\<close> that earlier calls have left, on the text-change
  events and the ending that the user produces: the string returned and the session
  as the call leaves it. Only the path of the accepted line reaches the lines that
  cancel the timer.
\<close>

definition get_user_input_async ::
  "'c list \<Rightarrow> 'c list \<Rightarrow> 'c agent option \<Rightarrow> nat \<Rightarrow> (nat \<times> 'c buffer) list \<Rightarrow> nat \<times> ending
     \<Rightarrow> 'c session \<Rightarrow> ('c list \<times> 'c session) option" where
  "get_user_input_async prompt default_arg agent_arg timeout_arg evs end_arg s =
    (case run_events evs (begin_call default_arg agent_arg timeout_arg s) of
       None \<Rightarrow> None
     | Some s1 \<Rightarrow>
         (case advance (fst end_arg) s1 of
            None \<Rightarrow> None
          | Some s2 \<Rightarrow>
              (case snd end_arg of
                 Accept \<Rightarrow> Some (buffer_text (buffer s2), cancel_timer (length (closures s)) s2)
               | KeyboardInterrupt \<Rightarrow> Some (default_arg, s2)
               | EOFError \<Rightarrow> Some (default_arg, s2))))"

text \<open>
  A run of the process: one call after the other, each given by its arguments, its
  events and its ending.
\<close>

fun run_calls ::
  "('c list \<times> 'c list \<times> 'c agent option \<times> nat \<times> (nat \<times> 'c buffer) list \<times> (nat \<times> ending)) list
     \<Rightarrow> 'c session \<Rightarrow> 'c session option" where
  "run_calls [] s = Some s"
| "run_calls ((prompt, default_arg, agent_arg, timeout_arg, evs, end_arg) # cs) s =
     (case get_user_input_async prompt default_arg agent_arg timeout_arg evs end_arg s of
        None \<Rightarrow> None
      | Some (answer, s') \<Rightarrow> run_calls cs s')"

subsection \<open>Notions for the properties of the session\<close>

text \<open>
  \<open>sleeping\<close> counts the timers that are active: the tasks that still sleep.
  \<open>texts_of k\<close> lists the texts of the tasks that the handler of the call \<open>k\<close> has made.
  \<open>text_tracked\<close>: every task belongs to a call, and \<open>current_text\<close> of every call is the
  text of the task its handler made last, the empty text before the first.
  \<open>signature\<close> keeps of every task what never changes and matters here: its owner and
  its text.
\<close>

definition sleeping :: "'c session \<Rightarrow> nat" where
  "sleeping s = length (filter (\<lambda>t. state t = Sleeping) (tasks s))"

definition texts_of :: "nat \<Rightarrow> 'c timer_task list \<Rightarrow> 'c list list" where
  "texts_of k ts = map task_text (filter (\<lambda>t. owner t = k) ts)"

definition text_tracked :: "'c session \<Rightarrow> bool" where
  "text_tracked s \<longleftrightarrow>
     (\<forall>t \<in> set (tasks s). owner t < length (closures s)) \<and>
     (\<forall>k < length (closures s).
        current_text (closures s ! k) =
          (if texts_of k (tasks s) = [] then [] else last (texts_of k (tasks s))))"

definition signature :: "'c timer_task list \<Rightarrow> (nat \<times> 'c list) list" where
  "signature ts = map (\<lambda>t. (owner t, task_text t)) ts"

section \<open>Newline translation round trip\<close>




section \<open>Properties of the welcome tool\<close>

text \<open>
  What keeps an \<open>edit\<close> with a string content from being stored: a file that cannot be
  opened for writing, and a text that the encoding of the locale cannot take. The
  result is an error either way; in the second case the file is left empty.
\<close>

lemma edit_write_fault:
  assumes "input e ''action'' = Some (Str ''edit'')" and "input e ''content'' = Some (Str X)"
    and "write_fault fs = Some m"
  shows "welcome_tool e fs =
           Inr (\<lparr>result_toolUseId = toolUseId e, status = Error,
                 content = [''Error: '' @ m]\<rparr>, fs)"
  using assms by (simp add: welcome_tool_def welcome_try_def)

lemma edit_unencodable:
  assumes "input e ''action'' = Some (Str ''edit'')" and "input e ''content'' = Some (Str X)"
    and "write_fault fs = None" and "encode_fault fs X = Some m"
  shows "welcome_tool e fs =
           Inr (\<lparr>result_toolUseId = toolUseId e, status = Error,
                 content = [''Error: '' @ m]\<rparr>, fs\<lparr>welcome_file := Some []\<rparr>)"
  using assms by (simp add: welcome_tool_def welcome_try_def)




text \<open>
  C7: an \<open>edit\<close> request without a \<open>content\<close> field returns an error result, the message
  of the \<open>ValueError\<close>, and leaves the file system as it was.
\<close>

theorem edit_without_content:
  assumes "input tool ''action'' = Some (Str ''edit'')" and "input tool ''content'' = None"
  shows "welcome_tool tool fs =
           Inr (\<lparr>result_toolUseId = toolUseId tool, status = Error,
                 content = [''Error: content is required for edit action'']\<rparr>, fs)"
  using assms by (simp add: welcome_tool_def welcome_try_def)

theorem edit_without_content_witness:
  "welcome_tool \<lparr>toolUseId = ''t7'', input = [''action'' \<mapsto> Str ''edit'']\<rparr>
       \<lparr>welcome_file = Some ''kept'', linesep = [LF], read_fault = None, write_fault = None, encode_fault = (\<lambda>t. None)\<rparr> =
     Inr (\<lparr>result_toolUseId = ''t7'', status = Error,
           content = [''Error: content is required for edit action'']\<rparr>,
          \<lparr>welcome_file = Some ''kept'', linesep = [LF], read_fault = None, write_fault = None, encode_fault = (\<lambda>t. None)\<rparr>)"
proof -
  let ?tool = "\<lparr>toolUseId = ''t7'', input = [''action'' \<mapsto> Str ''edit'']\<rparr>"
  have a: "input ?tool ''action'' = Some (Str ''edit'')" by simp
  have c: "input ?tool ''content'' = None" by simp
  show ?thesis using edit_without_content [OF a c] by simp
qed

text \<open>
  C8: an action other than \<open>view\<close> and \<open>edit\<close> returns an error result whose text is
  \<open>Unknown action: \<close> followed by the action, and leaves the file system as it was.
\<close>

theorem unknown_action:
  assumes "input tool ''action'' = Some a" and "a \<noteq> Str ''view''" and "a \<noteq> Str ''edit''"
  shows "welcome_tool tool fs =
           Inr (\<lparr>result_toolUseId = toolUseId tool, status = Error,
                 content = [''Unknown action: '' @ py_str a]\<rparr>, fs)"
  using assms by (simp add: welcome_tool_def welcome_try_def)

theorem unknown_action_witness:
  "welcome_tool \<lparr>toolUseId = ''t8'', input = [''action'' \<mapsto> Str ''bogus'', ''content'' \<mapsto> Str ''X'']\<rparr>
       \<lparr>welcome_file = Some ''kept'', linesep = [LF], read_fault = None, write_fault = None, encode_fault = (\<lambda>t. None)\<rparr> =
     Inr (\<lparr>result_toolUseId = ''t8'', status = Error, content = [''Unknown action: bogus'']\<rparr>,
          \<lparr>welcome_file = Some ''kept'', linesep = [LF], read_fault = None, write_fault = None, encode_fault = (\<lambda>t. None)\<rparr>)"
proof -
  let ?tool = "\<lparr>toolUseId = ''t8'', input = [''action'' \<mapsto> Str ''bogus'', ''content'' \<mapsto> Str ''X'']\<rparr>"
  have a: "input ?tool ''action'' = Some (Str ''bogus'')" by simp
  have v: "Str ''bogus'' \<noteq> Str ''view''" by simp
  have e: "Str ''bogus'' \<noteq> Str ''edit''" by simp
  show ?thesis using unknown_action [OF a v e] by simp
qed

text \<open>
  C10: every result the tool returns carries the \<open>toolUseId\<close> of the request, and the
  tool returns a result whenever the request has an \<open>action\<close> field.
\<close>

theorem result_keeps_toolUseId:
  "(\<forall>r fs'. welcome_tool tool fs = Inr (r, fs') \<longrightarrow> result_toolUseId r = toolUseId tool) \<and>
   (input tool ''action'' \<noteq> None \<longrightarrow> (\<exists>r fs'. welcome_tool tool fs = Inr (r, fs')))"
  by (auto simp: welcome_tool_def welcome_try_def
      split: option.splits pyval.splits prod.splits sum.splits if_splits)

theorem result_keeps_toolUseId_witness:
  "welcome_tool \<lparr>toolUseId = ''t10'', input = [''action'' \<mapsto> Str ''edit'', ''content'' \<mapsto> NonStr ''int'' ''5'']\<rparr>
       \<lparr>welcome_file = Some ''old'', linesep = [LF], read_fault = None, write_fault = None, encode_fault = (\<lambda>t. None)\<rparr> =
     Inr (\<lparr>result_toolUseId = ''t10'', status = Error,
           content = [''Error: write() argument must be str, not int'']\<rparr>,
          \<lparr>welcome_file = Some [], linesep = [LF], read_fault = None, write_fault = None, encode_fault = (\<lambda>t. None)\<rparr>) \<and>
   result_toolUseId \<lparr>result_toolUseId = ''t10'', status = Error,
           content = [''Error: write() argument must be str, not int'']\<rparr> =
     toolUseId \<lparr>toolUseId = ''t10'', input = [''action'' \<mapsto> Str ''edit'', ''content'' \<mapsto> NonStr ''int'' ''5'']\<rparr>"
proof -
  let ?tool = "\<lparr>toolUseId = ''t10'', input = [''action'' \<mapsto> Str ''edit'', ''content'' \<mapsto> NonStr ''int'' ''5'']\<rparr>"
  let ?fs = "\<lparr>welcome_file = Some ''old'', linesep = [LF], read_fault = None, write_fault = None, encode_fault = (\<lambda>t. None)\<rparr>"
  let ?r = "\<lparr>result_toolUseId = ''t10'', status = Error,
           content = [''Error: write() argument must be str, not int'']\<rparr>"
  let ?fs' = "\<lparr>welcome_file = Some [], linesep = [LF], read_fault = None, write_fault = None, encode_fault = (\<lambda>t. None)\<rparr>"
  have run: "welcome_tool ?tool ?fs = Inr (?r, ?fs')"
    by (simp add: welcome_tool_def welcome_try_def)
  from result_keeps_toolUseId [of ?tool ?fs] run
  have "result_toolUseId ?r = toolUseId ?tool" by blast
  with run show ?thesis by simp
qed

section \<open>Properties of the history file path\<close>

text \<open>
  C9, as the code has it. A non-empty value of the environment variable is the path.
  Otherwise, when \<open>~/.strands\<close> exists, the path is \<open>input_history\<close> in it. Whatever
  path the function returns is one of these two or \<open>/tmp/input_history\<close>.
\<close>

theorem history_path_priority:
  "(\<forall>p. STRANDS_INPUT_HISTORY_PATH env = Some p \<and> p \<noteq> [] \<longrightarrow>
        get_history_file_path env = (Inr p, env)) \<and>
   (\<forall>h. (STRANDS_INPUT_HISTORY_PATH env = None \<or> STRANDS_INPUT_HISTORY_PATH env = Some []) \<and>
        home env = Some h \<and> strands_dir_exists env \<longrightarrow>
        get_history_file_path env = (Inr (str_path (h @ [''.strands'', ''input_history''])), env)) \<and>
   (\<forall>q. fst (get_history_file_path env) = Inr q \<longrightarrow>
        (STRANDS_INPUT_HISTORY_PATH env = Some q \<and> q \<noteq> []) \<or>
        (\<exists>h. home env = Some h \<and> q = str_path (h @ [''.strands'', ''input_history''])) \<or>
        q = ''/tmp/input_history'')"
  by (auto simp: get_history_file_path_def home_or_fallback_def Let_def
      split: option.splits if_splits)

theorem history_path_priority_witness:
  "get_history_file_path
     \<lparr>STRANDS_INPUT_HISTORY_PATH = Some ''/var/h'', home = Some [''home'', ''u''],
      strands_dir_exists = True, mkdir_fault = None\<rparr> =
     (Inr ''/var/h'',
      \<lparr>STRANDS_INPUT_HISTORY_PATH = Some ''/var/h'', home = Some [''home'', ''u''],
       strands_dir_exists = True, mkdir_fault = None\<rparr>) \<and>
   get_history_file_path
     \<lparr>STRANDS_INPUT_HISTORY_PATH = None, home = Some [''home'', ''u''],
      strands_dir_exists = True, mkdir_fault = None\<rparr> =
     (Inr ''/home/u/.strands/input_history'',
      \<lparr>STRANDS_INPUT_HISTORY_PATH = None, home = Some [''home'', ''u''],
       strands_dir_exists = True, mkdir_fault = None\<rparr>)"
proof -
  let ?e1 = "\<lparr>STRANDS_INPUT_HISTORY_PATH = Some ''/var/h'', home = Some [''home'', ''u''],
      strands_dir_exists = True, mkdir_fault = None\<rparr>"
  let ?e2 = "\<lparr>STRANDS_INPUT_HISTORY_PATH = None, home = Some [''home'', ''u''],
      strands_dir_exists = True, mkdir_fault = None\<rparr>"
  have "get_history_file_path ?e1 = (Inr ''/var/h'', ?e1)"
    using history_path_priority [of ?e1] by simp
  moreover have "get_history_file_path ?e2 = (Inr ''/home/u/.strands/input_history'', ?e2)"
    using history_path_priority [of ?e2] by simp
  ultimately show ?thesis by simp
qed

text \<open>
  C9, as the specification words it, fails for a variable that is set to the empty
  string: the function passes it over and returns the path under the home directory.
\<close>

theorem history_path_counterexample:
  "get_history_file_path
     \<lparr>STRANDS_INPUT_HISTORY_PATH = Some [], home = Some [''home'', ''u''],
      strands_dir_exists = True, mkdir_fault = None\<rparr> =
     (Inr ''/home/u/.strands/input_history'',
      \<lparr>STRANDS_INPUT_HISTORY_PATH = Some [], home = Some [''home'', ''u''],
       strands_dir_exists = True, mkdir_fault = None\<rparr>) \<and>
   ''/home/u/.strands/input_history'' \<noteq> []"
  by (simp add: get_history_file_path_def home_or_fallback_def)

section \<open>The session: what the parts keep\<close>

lemma map_update_same:
  "f y = f (xs ! i) \<Longrightarrow> map f (xs[i := y]) = map f xs"
proof (induction xs arbitrary: i)
  case Nil
  then show ?case by simp
next
  case (Cons x xs)
  then show ?case by (cases i) simp_all
qed

lemma signature_set_state [simp]:
  "signature (ts[i := (ts ! i)\<lparr>state := x\<rparr>]) = signature ts"
  unfolding signature_def by (rule map_update_same) simp

lemma cancel_timer_fields [simp]:
  "closures (cancel_timer k s) = closures s"
  "buffer (cancel_timer k s) = buffer s"
  "clock (cancel_timer k s) = clock s"
  "calls (cancel_timer k s) = calls s"
  "length (tasks (cancel_timer k s)) = length (tasks s)"
  "signature (tasks (cancel_timer k s)) = signature (tasks s)"
  by (simp_all add: cancel_timer_def split: option.split)

lemma handle_text_change_unfold:
  "handle_text_change k s =
     (if k < length (closures s) \<and> agent (closures s ! k) \<noteq> None
         \<and> min_text_length < length (buffer_text (buffer s))
         \<and> buffer_text (buffer s) \<noteq> current_text (closures s ! k)
      then (cancel_timer k s)\<lparr>closures := (closures s)
                   [k := (closures s ! k)\<lparr>current_text := buffer_text (buffer s),
                           typing_timer := Some (length (tasks s))\<rparr>],
                tasks := tasks (cancel_timer k s) @
                  [\<lparr>owner = k, task_text = buffer_text (buffer s), started = clock s,
                    wakes = clock s + typing_timeout (closures s ! k), state = Sleeping\<rparr>]\<rparr>
      else cancel_timer k s)"
  by (auto simp: handle_text_change_def Let_def)

lemma handle_text_change_fields [simp]:
  "buffer (handle_text_change k s) = buffer s"
  "clock (handle_text_change k s) = clock s"
  "calls (handle_text_change k s) = calls s"
  "length (closures (handle_text_change k s)) = length (closures s)"
  by (simp_all add: handle_text_change_unfold)

lemma attached_handler_fields [simp]:
  "buffer (attached_handler k s) = buffer s"
  "clock (attached_handler k s) = clock s"
  "calls (attached_handler k s) = calls s"
  "length (closures (attached_handler k s)) = length (closures s)"
  by (simp_all add: attached_handler_def)

lemma fire_fields [simp]:
  "buffer (fire ks s) = buffer s"
  "length (closures (fire ks s)) = length (closures s)"
  by (induction ks arbitrary: s) simp_all

lemma on_text_changed_fields [simp]:
  "buffer (on_text_changed s) = buffer s"
  "length (closures (on_text_changed s)) = length (closures s)"
  by (simp_all add: on_text_changed_def)

lemma finish_fields [simp]:
  "buffer (finish i s) = buffer s"
  "closures (finish i s) = closures s"
  "signature (tasks (finish i s)) = signature (tasks s)"
  by (simp_all add: finish_def)

lemma wake_fields [simp]:
  "buffer (wake i s) = buffer s"
  "closures (wake i s) = closures s"
  "signature (tasks (wake i s)) = signature (tasks s)"
  by (simp_all add: wake_def)

lemma after_launch_fields [simp]:
  "buffer (after_launch t r s) = buffer_after r"
  "closures (after_launch t r s) = closures s"
  "tasks (after_launch t r s) = tasks s"
  by (simp_all add: after_launch_def)

lemma launch_assistant_restores:
  assumes "launch_assistant ag n t b = Some r"
  shows "buffer_text (buffer_after r) = buffer_text b"
    and "cursor_position (buffer_after r) = cursor_position b"
  using assms
  by (auto simp: launch_assistant_def Let_def split: option.splits prod.splits)

lemma launch_assistant_returns:
  assumes "ag = Some a" and "finishes (a n t) = Some d"
  shows "launch_assistant ag n t b \<noteq> None"
  using assms
  by (auto simp: launch_assistant_def executor_exit_def Let_def split: option.splits prod.splits)

lemma trigger_buffer:
  assumes "trigger_assistant_after_pause i s = Some s'"
  shows "buffer_text (buffer s') = buffer_text (buffer s)"
    and "cursor_position (buffer s') = cursor_position (buffer s)"
  using assms
  by (auto simp: trigger_assistant_after_pause_def Let_def launch_assistant_restores
      split: if_splits option.splits)

text \<open>The tasks that a handler leaves in place keep their owner and their text.\<close>

lemma signature_nth:
  assumes "signature ts' = signature ts" and "j < length ts"
  shows "owner (ts' ! j) = owner (ts ! j)" and "task_text (ts' ! j) = task_text (ts ! j)"
proof -
  from assms(1) have len: "length ts' = length ts"
    unfolding signature_def by (rule map_eq_imp_length_eq)
  from assms have "signature ts' ! j = signature ts ! j" by simp
  with assms(2) len show "owner (ts' ! j) = owner (ts ! j)"
    and "task_text (ts' ! j) = task_text (ts ! j)"
    by (simp_all add: signature_def)
qed

lemma handle_text_change_start:
  "length (buffer_text (buffer s)) < min_text_length \<longrightarrow>
     length (tasks (handle_text_change k s)) = length (tasks s)"
  "length (tasks (handle_text_change k s)) \<noteq> length (tasks s) \<longrightarrow>
     min_text_length < length (buffer_text (buffer s)) \<and>
     buffer_text (buffer s) \<noteq> current_text (closures s ! k) \<and>
     agent (closures s ! k) \<noteq> None \<and> k < length (closures s) \<and>
     tasks (handle_text_change k s) = tasks (cancel_timer k s) @
       [\<lparr>owner = k, task_text = buffer_text (buffer s), started = clock s,
         wakes = clock s + typing_timeout (closures s ! k), state = Sleeping\<rparr>] \<and>
     current_text (closures (handle_text_change k s) ! k) = buffer_text (buffer s)"
  by (auto simp: handle_text_change_unfold)

lemma handle_text_change_prefix:
  "length (tasks s) \<le> length (tasks (handle_text_change k s))"
  "j < length (tasks s) \<Longrightarrow> owner (tasks (handle_text_change k s) ! j) = owner (tasks s ! j)"
  "j < length (tasks s) \<Longrightarrow> task_text (tasks (handle_text_change k s) ! j) = task_text (tasks s ! j)"
  using signature_nth [of "tasks (cancel_timer k s)" "tasks s" j]
  by (auto simp: handle_text_change_unfold nth_append)

lemma handle_text_change_closure:
  "closures (handle_text_change k s) ! q = closures s ! q \<or>
   (q = k \<and> current_text (closures (handle_text_change k s) ! k) = buffer_text (buffer s))"
  by (auto simp: handle_text_change_unfold nth_list_update)

lemma attached_handler_start:
  "length (buffer_text (buffer s)) < min_text_length \<longrightarrow>
     length (tasks (attached_handler k s)) = length (tasks s)"
  "length (tasks (attached_handler k s)) \<noteq> length (tasks s) \<longrightarrow>
     min_text_length < length (buffer_text (buffer s)) \<and>
     buffer_text (buffer s) \<noteq> current_text (closures s ! k) \<and>
     agent (closures s ! k) \<noteq> None \<and> k < length (closures s) \<and>
     tasks (attached_handler k s) = tasks (cancel_timer k s) @
       [\<lparr>owner = k, task_text = buffer_text (buffer s), started = clock s,
         wakes = clock s + typing_timeout (closures s ! k), state = Sleeping\<rparr>] \<and>
     current_text (closures (attached_handler k s) ! k) = buffer_text (buffer s)"
  using handle_text_change_start [where s = s and k = k]
  by (auto simp: attached_handler_def)

lemma attached_handler_prefix:
  "length (tasks s) \<le> length (tasks (attached_handler k s))"
  "j < length (tasks s) \<Longrightarrow> owner (tasks (attached_handler k s) ! j) = owner (tasks s ! j)"
  "j < length (tasks s) \<Longrightarrow> task_text (tasks (attached_handler k s) ! j) = task_text (tasks s ! j)"
  by (auto simp: attached_handler_def handle_text_change_prefix)

lemma attached_handler_closure:
  "closures (attached_handler k s) ! q = closures s ! q \<or>
   (q = k \<and> current_text (closures (attached_handler k s) ! k) = buffer_text (buffer s))"
  using handle_text_change_closure [where s = s and k = k and q = q]
  by (auto simp: attached_handler_def)

lemma fire_prefix:
  "length (tasks s) \<le> length (tasks (fire ks s)) \<and>
   (j < length (tasks s) \<longrightarrow>
      owner (tasks (fire ks s) ! j) = owner (tasks s ! j) \<and>
      task_text (tasks (fire ks s) ! j) = task_text (tasks s ! j))"
proof (induction ks arbitrary: s)
  case Nil
  show ?case by simp
next
  case (Cons k ks)
  let ?s = "attached_handler k s"
  have le: "length (tasks s) \<le> length (tasks ?s)"
    by (rule attached_handler_prefix(1))
  from Cons.IH [of ?s] have ih: "length (tasks ?s) \<le> length (tasks (fire ks ?s))"
    "j < length (tasks ?s) \<longrightarrow>
      owner (tasks (fire ks ?s) ! j) = owner (tasks ?s ! j) \<and>
      task_text (tasks (fire ks ?s) ! j) = task_text (tasks ?s ! j)"
    by simp_all
  have "owner (tasks (fire ks ?s) ! j) = owner (tasks s ! j) \<and>
      task_text (tasks (fire ks ?s) ! j) = task_text (tasks s ! j)"
    if j: "j < length (tasks s)"
  proof -
    from j le have "j < length (tasks ?s)" by simp
    with ih(2) attached_handler_prefix(2,3) [OF j, of k] show ?thesis by simp
  qed
  with le ih(1) show ?case by simp
qed

lemma fire_short:
  "length (buffer_text (buffer s)) < min_text_length \<Longrightarrow>
     length (tasks (fire ks s)) = length (tasks s)"
proof (induction ks arbitrary: s)
  case Nil
  then show ?case by simp
next
  case (Cons k ks)
  let ?s = "attached_handler k s"
  from Cons.prems have same: "length (tasks ?s) = length (tasks s)"
    using attached_handler_start(1) [where s = s and k = k] by simp
  from Cons.prems have "length (buffer_text (buffer ?s)) < min_text_length" by simp
  from Cons.IH [OF this] same show ?case by simp
qed

lemma fire_keeps_current:
  "current_text (closures s ! q) = buffer_text (buffer s) \<Longrightarrow>
     current_text (closures (fire ks s) ! q) = buffer_text (buffer s)"
proof (induction ks arbitrary: s)
  case Nil
  then show ?case by simp
next
  case (Cons k ks)
  let ?s = "attached_handler k s"
  from Cons.prems attached_handler_closure [where s = s and k = k and q = q]
  have "current_text (closures ?s ! q) = buffer_text (buffer ?s)" by auto
  from Cons.IH [OF this] show ?case by simp
qed

lemma fire_start:
  assumes "length (tasks s) \<le> j" and "j < length (tasks (fire ks s))"
  shows "min_text_length < length (buffer_text (buffer s)) \<and>
         task_text (tasks (fire ks s) ! j) = buffer_text (buffer s) \<and>
         owner (tasks (fire ks s) ! j) < length (closures s) \<and>
         agent (closures s ! owner (tasks (fire ks s) ! j)) \<noteq> None \<and>
         buffer_text (buffer s) \<noteq> current_text (closures s ! owner (tasks (fire ks s) ! j)) \<and>
         current_text (closures (fire ks s) ! owner (tasks (fire ks s) ! j)) =
           buffer_text (buffer s)"
  using assms
proof (induction ks arbitrary: s)
  case Nil
  then show ?case by simp
next
  case (Cons k ks)
  let ?s = "attached_handler k s"
  let ?f = "fire ks ?s"
  have fire: "fire (k # ks) s = ?f" by simp
  have buf: "buffer ?s = buffer s" and cl: "length (closures ?s) = length (closures s)"
    by simp_all
  show ?case
  proof (cases "length (tasks ?s) \<le> j")
    case True
    from Cons.prems(2) have j: "j < length (tasks ?f)" by simp
    let ?o = "owner (tasks ?f ! j)"
    from Cons.IH [OF True j] buf cl
    have ih: "min_text_length < length (buffer_text (buffer s))"
      "task_text (tasks ?f ! j) = buffer_text (buffer s)"
      "?o < length (closures s)"
      "agent (closures ?s ! ?o) \<noteq> None"
      "buffer_text (buffer s) \<noteq> current_text (closures ?s ! ?o)"
      "current_text (closures ?f ! ?o) = buffer_text (buffer s)"
      by simp_all
    have "closures ?s ! ?o = closures s ! ?o"
      using attached_handler_closure [where s = s and k = k and q = ?o] ih(5) by auto
    with ih show ?thesis unfolding fire by simp
  next
    case False
    then have j: "j < length (tasks ?s)" by simp
    with Cons.prems(1) have grew: "length (tasks ?s) \<noteq> length (tasks s)" by simp
    with attached_handler_start(2) [where s = s and k = k]
    have st: "min_text_length < length (buffer_text (buffer s))"
      "buffer_text (buffer s) \<noteq> current_text (closures s ! k)"
      "agent (closures s ! k) \<noteq> None" "k < length (closures s)"
      "tasks ?s = tasks (cancel_timer k s) @
         [\<lparr>owner = k, task_text = buffer_text (buffer s), started = clock s,
           wakes = clock s + typing_timeout (closures s ! k), state = Sleeping\<rparr>]"
      "current_text (closures ?s ! k) = buffer_text (buffer s)"
      by simp_all
    from st(6) have kept: "current_text (closures ?f ! k) = buffer_text (buffer s)"
      using fire_keeps_current [where s = ?s and q = k and ks = ks] by simp
    from st(5) j Cons.prems(1) have jj: "j = length (tasks s)" by simp
    with st(5) have new: "owner (tasks ?s ! j) = k" "task_text (tasks ?s ! j) = buffer_text (buffer s)"
      by (simp_all add: nth_append)
    from fire_prefix [where s = ?s and ks = ks and j = j] j new
    have "owner (tasks ?f ! j) = k" "task_text (tasks ?f ! j) = buffer_text (buffer s)"
      by simp_all
    with st kept show ?thesis unfolding fire by simp
  qed
qed


lemma on_text_changed_start:
  assumes "length (tasks x) \<le> j \<and> j < length (tasks (on_text_changed x))"
  shows "min_text_length < length (buffer_text (buffer x)) \<and>
      task_text (tasks (on_text_changed x) ! j) = buffer_text (buffer x) \<and>
      owner (tasks (on_text_changed x) ! j) < length (closures x) \<and>
      agent (closures x ! owner (tasks (on_text_changed x) ! j)) \<noteq> None \<and>
      buffer_text (buffer x) \<noteq>
        current_text (closures x ! owner (tasks (on_text_changed x) ! j)) \<and>
      current_text (closures (on_text_changed x) ! owner (tasks (on_text_changed x) ! j)) =
        buffer_text (buffer x)"
  using assms fire_start [where s = x and j = j and ks = "[0..<length (closures x)]"]
  by (simp add: on_text_changed_def)

text \<open>\<open>current_text\<close> follows the tasks: the invariant and what keeps it.\<close>

lemma texts_of_signature:
  "texts_of k ts = map snd (filter (\<lambda>p. fst p = k) (signature ts))"
  by (induction ts) (simp_all add: texts_of_def signature_def)

lemma owners_signature:
  "(\<forall>t \<in> set ts. owner t < n) = (\<forall>p \<in> set (signature ts). fst p < n)"
  by (auto simp: signature_def)

lemma text_tracked_cong:
  assumes "closures s' = closures s" and "signature (tasks s') = signature (tasks s)"
  shows "text_tracked s' = text_tracked s"
  using assms by (simp add: text_tracked_def texts_of_signature owners_signature)

lemma cancel_timer_tracked: "text_tracked (cancel_timer k s) = text_tracked s"
  by (rule text_tracked_cong) simp_all

lemma finish_tracked: "text_tracked (finish i s) = text_tracked s"
  by (rule text_tracked_cong) simp_all

lemma texts_of_append:
  "texts_of k (ts @ [t]) = (if owner t = k then texts_of k ts @ [task_text t] else texts_of k ts)"
  by (simp add: texts_of_def)

lemma handle_text_change_tracked:
  assumes "text_tracked s"
  shows "text_tracked (handle_text_change k s)"
proof (cases "k < length (closures s) \<and> agent (closures s ! k) \<noteq> None
         \<and> min_text_length < length (buffer_text (buffer s))
         \<and> buffer_text (buffer s) \<noteq> current_text (closures s ! k)")
  case False
  then have "handle_text_change k s = cancel_timer k s"
    by (auto simp: handle_text_change_unfold)
  with assms show ?thesis by (simp add: cancel_timer_tracked)
next
  case True
  let ?c = "cancel_timer k s"
  let ?new = "\<lparr>owner = k, task_text = buffer_text (buffer s), started = clock s,
                    wakes = clock s + typing_timeout (closures s ! k), state = Sleeping\<rparr>"
  let ?h = "handle_text_change k s"
  from assms have tr: "text_tracked ?c" by (simp add: cancel_timer_tracked)
  from True have cl: "closures ?h = (closures s)
                   [k := (closures s ! k)\<lparr>current_text := buffer_text (buffer s),
                           typing_timer := Some (length (tasks s))\<rparr>]"
    and ts: "tasks ?h = tasks ?c @ [?new]"
    by (auto simp: handle_text_change_unfold)
  from True have k: "k < length (closures s)" by simp
  have owners: "\<forall>t \<in> set (tasks ?h). owner t < length (closures ?h)"
    using tr k by (auto simp: ts cl text_tracked_def)
  have each: "current_text (closures ?h ! q) =
          (if texts_of q (tasks ?h) = [] then [] else last (texts_of q (tasks ?h)))"
    if q: "q < length (closures ?h)" for q
  proof (cases "q = k")
    case True
    with k show ?thesis by (simp add: cl ts texts_of_append)
  next
    case False
    from q have "q < length (closures ?c)" by (simp add: cl)
    with tr have "current_text (closures ?c ! q) =
          (if texts_of q (tasks ?c) = [] then [] else last (texts_of q (tasks ?c)))"
      by (simp add: text_tracked_def)
    with False show ?thesis by (simp add: cl ts texts_of_append)
  qed
  from owners each show ?thesis by (simp add: text_tracked_def)
qed

lemma attached_handler_tracked:
  "text_tracked s \<Longrightarrow> text_tracked (attached_handler k s)"
  by (simp add: attached_handler_def handle_text_change_tracked)

lemma fire_tracked: "text_tracked s \<Longrightarrow> text_tracked (fire ks s)"
  by (induction ks arbitrary: s) (simp_all add: attached_handler_tracked)

lemma on_text_changed_tracked: "text_tracked s \<Longrightarrow> text_tracked (on_text_changed s)"
  by (simp add: on_text_changed_def fire_tracked)

lemma trigger_shape:
  assumes "trigger_assistant_after_pause i s = Some s'"
  shows "\<exists>s1 again. closures s1 = closures s \<and> signature (tasks s1) = signature (tasks s) \<and>
           s' = finish i (if again then on_text_changed s1 else s1)"
proof (cases "buffer_text (buffer s) = []")
  case True
  with assms have "s' = finish i (if False then on_text_changed (wake i s) else wake i s)"
    by (simp add: trigger_assistant_after_pause_def Let_def)
  moreover have "closures (wake i s) = closures s"
    "signature (tasks (wake i s)) = signature (tasks s)"
    by simp_all
  ultimately show ?thesis by blast
next
  case False
  let ?t = "tasks s ! i"
  from assms False obtain r
    where s': "s' = finish i (if refired r then on_text_changed (after_launch ?t r (wake i s))
                              else after_launch ?t r (wake i s))"
    by (auto simp: trigger_assistant_after_pause_def Let_def split: option.splits)
  moreover have "closures (after_launch ?t r (wake i s)) = closures s"
    "signature (tasks (after_launch ?t r (wake i s))) = signature (tasks s)"
    by simp_all
  ultimately show ?thesis by blast
qed

lemma trigger_tracked:
  assumes "text_tracked s" and "trigger_assistant_after_pause i s = Some s'"
  shows "text_tracked s'"
proof -
  from trigger_shape [OF assms(2)] obtain s1 again
    where s1: "closures s1 = closures s" "signature (tasks s1) = signature (tasks s)"
      and s': "s' = finish i (if again then on_text_changed s1 else s1)"
    by blast
  from s1 have "text_tracked s1 = text_tracked s" by (rule text_tracked_cong)
  with assms(1) have "text_tracked s1" by simp
  then have "text_tracked (if again then on_text_changed s1 else s1)"
    by (simp add: on_text_changed_tracked)
  then show ?thesis unfolding s' by (simp add: finish_tracked)
qed

lemma advance_preserves:
  assumes run: "advance now s = Some s'" and start: "P s"
    and trig: "\<And>i s s'. P s \<Longrightarrow> trigger_assistant_after_pause i s = Some s' \<Longrightarrow> P s'"
    and clk: "\<And>s t. P s \<Longrightarrow> P (s\<lparr>clock := t\<rparr>)"
  shows "P s'"
proof -
  have "P s \<longrightarrow> P s'"
  proof (rule advance.raw_induct [where P = "\<lambda>n a y. P a \<longrightarrow> P y", OF _ run])
    fix adv :: "nat \<Rightarrow> 'a session \<Rightarrow> 'a session option" and n a y
    assume ih: "\<And>m b z. adv m b = Some z \<Longrightarrow> P b \<longrightarrow> P z"
      and body: "(case next_due n (tasks a) of
                    None \<Rightarrow> Some (a\<lparr>clock := max (clock a) n\<rparr>)
                  | Some i \<Rightarrow>
                      (case trigger_assistant_after_pause i a of None \<Rightarrow> None
                       | Some s' \<Rightarrow> adv n s')) = Some y"
    show "P a \<longrightarrow> P y"
    proof
      assume p: "P a"
      show "P y"
      proof (cases "next_due n (tasks a)")
        case None
        with body have "y = a\<lparr>clock := max (clock a) n\<rparr>" by simp
        with p show ?thesis by (simp add: clk)
      next
        case (Some i)
        with body obtain s1 where s1: "trigger_assistant_after_pause i a = Some s1"
          and rest: "adv n s1 = Some y"
          by (auto split: option.splits)
        from p s1 have "P s1" by (rule trig)
        with ih [OF rest] show ?thesis by simp
      qed
    qed
  qed
  with start show ?thesis by simp
qed

lemma advance_tracked:
  assumes "advance now s = Some s'" and "text_tracked s"
  shows "text_tracked s'"
  using assms
proof (rule advance_preserves)
  show "text_tracked s1 \<Longrightarrow> trigger_assistant_after_pause i s1 = Some s2 \<Longrightarrow> text_tracked s2"
    for i s1 s2 by (rule trigger_tracked)
  show "text_tracked s1 \<Longrightarrow> text_tracked (s1\<lparr>clock := t\<rparr>)" for s1 :: "'a session" and t
    by (simp add: text_tracked_def)
qed

lemma text_changed_cases:
  assumes "text_changed at b s = Some s'"
  obtains s1 where "advance at s = Some s1" and "s' = on_text_changed (s1\<lparr>buffer := b\<rparr>)"
  using assms by (auto simp: text_changed_def)

lemma text_changed_tracked:
  assumes "text_tracked s" and "text_changed at b s = Some s'"
  shows "text_tracked s'"
proof -
  from assms(2) obtain s1 where adv: "advance at s = Some s1"
    and s': "s' = on_text_changed (s1\<lparr>buffer := b\<rparr>)"
    by (rule text_changed_cases)
  from adv assms(1) have "text_tracked s1" by (rule advance_tracked)
  then have "text_tracked (s1\<lparr>buffer := b\<rparr>)" by (simp add: text_tracked_def)
  then show ?thesis unfolding s' by (rule on_text_changed_tracked)
qed

lemma run_events_tracked:
  "text_tracked s \<Longrightarrow> run_events evs s = Some s' \<Longrightarrow> text_tracked s'"
proof (induction evs arbitrary: s)
  case Nil
  then show ?case by simp
next
  case (Cons e evs)
  obtain at b where e: "e = (at, b)" by (cases e)
  with Cons.prems(2) obtain s1 where s1: "text_changed at b s = Some s1"
    and rest: "run_events evs s1 = Some s'"
    by (auto split: option.splits)
  from Cons.prems(1) s1 have "text_tracked s1" by (rule text_changed_tracked)
  then show ?case using rest by (rule Cons.IH)
qed

lemma begin_call_tracked:
  assumes "text_tracked s"
  shows "text_tracked (begin_call d a gap s)"
proof -
  let ?b = "begin_call d a gap s"
  have cl: "closures ?b = closures s @ [\<lparr>agent = a, typing_timeout = gap, typing_timer = None,
           current_text = []\<rparr>]" and ts: "tasks ?b = tasks s"
    by (simp_all add: begin_call_def)
  from assms have own: "\<forall>t \<in> set (tasks s). owner t < length (closures s)"
    by (simp add: text_tracked_def)
  then have none: "texts_of (length (closures s)) (tasks s) = []"
    by (auto simp: texts_of_def filter_empty_conv)
  have each: "current_text (closures ?b ! q) =
          (if texts_of q (tasks ?b) = [] then [] else last (texts_of q (tasks ?b)))"
    if q: "q < length (closures ?b)" for q
  proof (cases "q < length (closures s)")
    case True
    with assms show ?thesis by (simp add: cl ts nth_append text_tracked_def)
  next
    case False
    with q have "q = length (closures s)" by (simp add: cl)
    with none show ?thesis by (simp add: cl ts)
  qed
  from own have "\<forall>t \<in> set (tasks ?b). owner t < length (closures ?b)"
    by (auto simp: cl ts)
  with each show ?thesis by (simp add: text_tracked_def)
qed

lemma get_user_input_async_tracked:
  assumes "text_tracked s"
    and "get_user_input_async p d a gap evs e s = Some (answer, s')"
  shows "text_tracked s'"
proof -
  from assms(2) obtain s1 s2 where s1: "run_events evs (begin_call d a gap s) = Some s1"
    and s2: "advance (fst e) s1 = Some s2"
    and s': "s' = s2 \<or> s' = cancel_timer (length (closures s)) s2"
    by (auto simp: get_user_input_async_def split: option.splits ending.splits)
  from assms(1) have "text_tracked (begin_call d a gap s)" by (rule begin_call_tracked)
  then have "text_tracked s1" using s1 by (rule run_events_tracked)
  with s2 have "text_tracked s2" by (rule advance_tracked)
  with s' show ?thesis by (auto simp: cancel_timer_tracked)
qed

lemma run_calls_tracked:
  "text_tracked s \<Longrightarrow> run_calls cs s = Some s' \<Longrightarrow> text_tracked s'"
proof (induction cs arbitrary: s)
  case Nil
  then show ?case by simp
next
  case (Cons c cs)
  obtain p d a gap evs e where c: "c = (p, d, a, gap, evs, e)" by (cases c)
  with Cons.prems(2) obtain answer s1
    where s1: "get_user_input_async p d a gap evs e s = Some (answer, s1)"
      and rest: "run_calls cs s1 = Some s'"
    by (auto split: option.splits)
  from Cons.prems(1) s1 have "text_tracked s1" by (rule get_user_input_async_tracked)
  then show ?case using rest by (rule Cons.IH)
qed

lemma fresh_tracked: "text_tracked fresh"
  by (simp add: text_tracked_def fresh_def)

section \<open>Properties of the input helper\<close>

text \<open>
  C1: whenever \<open>launch_assistant\<close> returns, the text and the cursor position of the
  buffer are the ones it saved on entry, whatever the worker thread did to the buffer and
  whether the agent answered, raised or ran past the bound; it returns whenever the
  worker ends. The same holds of the task that a timer wakes.
\<close>

theorem advisory_restores_buffer:
  "(\<forall>r. launch_assistant ag n t b = Some r \<longrightarrow>
        buffer_text (buffer_after r) = buffer_text b \<and>
        cursor_position (buffer_after r) = cursor_position b) \<and>
   (\<forall>a d. ag = Some a \<and> finishes (a n t) = Some d \<longrightarrow> launch_assistant ag n t b \<noteq> None) \<and>
   (\<forall>s'. trigger_assistant_after_pause i s = Some s' \<longrightarrow>
        buffer_text (buffer s') = buffer_text (buffer s) \<and>
        cursor_position (buffer s') = cursor_position (buffer s))"
  using launch_assistant_restores [of ag n t b] launch_assistant_returns [of ag _ n t _ b]
    trigger_buffer [of i s]
  by blast

text \<open>The definitions by which \<open>simp\<close> runs the session on a concrete input.\<close>

lemmas run_defs = text_changed_def on_text_changed_def attached_handler_def
  handle_text_change_def cancel_timer_def agent_of_def trigger_assistant_after_pause_def
  wake_def after_launch_def finish_def launch_assistant_def future_result_def
  result_timeout_def display_suggestion_def executor_exit_def min_text_length_def
  get_user_input_async_def begin_call_def fresh_def next_due_def due_def advance.simps
  sleeping_def

theorem advisory_restores_buffer_witness:
  "(\<exists>r. launch_assistant
          (Some (\<lambda>n t. \<lparr>finishes = Some 12000, outcome = Returns (Text ''try this''),
                         meanwhile = (\<lambda>b. b\<lparr>buffer_text := ''garbled'', cursor_position := 0\<rparr>)\<rparr>))
          0 ''hello world'' \<lparr>buffer_text = ''hello world'', cursor_position = 11\<rparr> = Some r \<and>
        shown r = [Thinking, Printed []] \<and>
        buffer_text (buffer_after r) = ''hello world'' \<and> cursor_position (buffer_after r) = 11) \<and>
   (\<exists>s'. trigger_assistant_after_pause 0
          \<lparr>closures =
             [\<lparr>agent = Some (\<lambda>n t. \<lparr>finishes = Some 300, outcome = Raises (Exception ''no model''),
                         meanwhile = (\<lambda>b. b\<lparr>buffer_text := ''garbled'', cursor_position := 0\<rparr>)\<rparr>),
               typing_timeout = 2500, typing_timer = Some 0, current_text = ''hello world''\<rparr>],
           tasks = [\<lparr>owner = 0, task_text = ''hello world'', started = 100, wakes = 2600,
                     state = Sleeping\<rparr>],
           buffer = \<lparr>buffer_text = ''hello world!'', cursor_position = 12\<rparr>,
           clock = 100, display = [], calls = [], uncaught = []\<rparr> = Some s' \<and>
        display s' = [Thinking, Printed ''no model''] \<and>
        buffer_text (buffer s') = ''hello world!'' \<and> cursor_position (buffer s') = 12)"
proof -
  let ?ag = "Some (\<lambda>n t. \<lparr>finishes = Some 12000, outcome = Returns (Text ''try this''),
                         meanwhile = (\<lambda>b. b\<lparr>buffer_text := ''garbled'', cursor_position := 0\<rparr>)\<rparr>)"
  let ?b = "\<lparr>buffer_text = ''hello world'', cursor_position = 11\<rparr>"
  let ?s = "\<lparr>closures =
             [\<lparr>agent = Some (\<lambda>n t. \<lparr>finishes = Some 300, outcome = Raises (Exception ''no model''),
                         meanwhile = (\<lambda>b. b\<lparr>buffer_text := ''garbled'', cursor_position := 0\<rparr>)\<rparr>),
               typing_timeout = 2500, typing_timer = Some 0, current_text = ''hello world''\<rparr>],
           tasks = [\<lparr>owner = 0, task_text = ''hello world'', started = 100, wakes = 2600,
                     state = Sleeping\<rparr>],
           buffer = \<lparr>buffer_text = ''hello world!'', cursor_position = 12\<rparr>,
           clock = 100, display = [], calls = [], uncaught = []\<rparr>"
  note inst = advisory_restores_buffer [of ?ag 0 "''hello world''" ?b 0 ?s]
  from inst have "launch_assistant ?ag 0 ''hello world'' ?b \<noteq> None"
    by simp
  then obtain r where r: "launch_assistant ?ag 0 ''hello world'' ?b = Some r" by blast
  with inst have "buffer_text (buffer_after r) = ''hello world'' \<and> cursor_position (buffer_after r) = 11"
    by simp
  moreover from r have "shown r = [Thinking, Printed []]"
    by (auto simp: launch_assistant_def future_result_def result_timeout_def
        display_suggestion_def executor_exit_def)
  ultimately have first: "\<exists>r. launch_assistant ?ag 0 ''hello world'' ?b = Some r \<and>
        shown r = [Thinking, Printed []] \<and>
        buffer_text (buffer_after r) = ''hello world'' \<and> cursor_position (buffer_after r) = 11"
    using r by blast
  have "\<exists>s'. trigger_assistant_after_pause 0 ?s = Some s' \<and> display s' = [Thinking, Printed ''no model'']"
    by (simp add: run_defs)
  then obtain s' where s': "trigger_assistant_after_pause 0 ?s = Some s'"
    "display s' = [Thinking, Printed ''no model'']" by blast
  with inst have "buffer_text (buffer s') = ''hello world!'' \<and> cursor_position (buffer s') = 12"
    by simp
  with s' have "\<exists>s'. trigger_assistant_after_pause 0 ?s = Some s' \<and>
        display s' = [Thinking, Printed ''no model''] \<and>
        buffer_text (buffer s') = ''hello world!'' \<and> cursor_position (buffer s') = 12"
    by blast
  with first show ?thesis by blast
qed

text \<open>
  C2, on a concrete input: two calls in one process, with the same agent. The first
  call is accepted and cancels its timer, but its handler stays on the buffer of the
  shared \<open>PromptSession\<close>. In the second call one text-change event runs both handlers:
  two timers sleep at once, one for each call, and the pause that follows invokes the
  agent twice on the same text.
\<close>

theorem second_call_doubles_timers:
  "Option.bind
     (get_user_input_async ''> '' []
        (Some (\<lambda>n t. \<lparr>finishes = Some 3000, outcome = Returns (Text ''try this''), meanwhile = (\<lambda>b. b)\<rparr>))
        2500 [(100, \<lparr>buffer_text = ''hello world'', cursor_position = 11\<rparr>)] (200, Accept) fresh)
     (\<lambda>first.
        Option.bind
          (run_events [(1000, \<lparr>buffer_text = ''hello there'', cursor_position = 11\<rparr>)]
             (begin_call []
                (Some (\<lambda>n t. \<lparr>finishes = Some 3000, outcome = Returns (Text ''try this''), meanwhile = (\<lambda>b. b)\<rparr>))
                2500 (snd first)))
          (\<lambda>typed.
             Option.bind (advance 9000 typed)
               (\<lambda>paused. Some (fst first, map owner (tasks typed), map state (tasks typed),
                                sleeping typed, calls paused)))) =
   Some (''hello world'', [0, 0, 1], [Cancelled, Sleeping, Sleeping], 2,
         [''hello there'', ''hello there''])"
  by (simp add: run_defs)

text \<open>
  C6: the minimum length is 5. With a text shorter than that in the buffer, no handler
  and no firing of \<open>on_text_changed\<close> starts a timer. A handler that starts a timer does so
  for a text longer than 5 characters and different from its \<open>current_text\<close>, which then
  becomes that text; the same holds of every timer that a firing of \<open>on_text_changed\<close>
  or a text-change event starts, for the handler that starts it. In every session that
  calls and events lead to, \<open>current_text\<close> of every call is the text of the timer its
  handler started last (the empty string before the first).
\<close>

theorem debounce_start_condition:
  "min_text_length = 5 \<and>
   (length (buffer_text (buffer s)) < min_text_length \<longrightarrow>
      length (tasks (handle_text_change k s)) = length (tasks s) \<and>
      length (tasks (on_text_changed s)) = length (tasks s)) \<and>
   (length (tasks (handle_text_change k s)) \<noteq> length (tasks s) \<longrightarrow>
      min_text_length < length (buffer_text (buffer s)) \<and>
      buffer_text (buffer s) \<noteq> current_text (closures s ! k) \<and>
      agent (closures s ! k) \<noteq> None \<and>
      tasks (handle_text_change k s) = tasks (cancel_timer k s) @
        [\<lparr>owner = k, task_text = buffer_text (buffer s), started = clock s,
          wakes = clock s + typing_timeout (closures s ! k), state = Sleeping\<rparr>] \<and>
      current_text (closures (handle_text_change k s) ! k) = buffer_text (buffer s)) \<and>
   (\<forall>j. length (tasks s) \<le> j \<and> j < length (tasks (on_text_changed s)) \<longrightarrow>
      min_text_length < length (buffer_text (buffer s)) \<and>
      task_text (tasks (on_text_changed s) ! j) = buffer_text (buffer s) \<and>
      owner (tasks (on_text_changed s) ! j) < length (closures s) \<and>
      agent (closures s ! owner (tasks (on_text_changed s) ! j)) \<noteq> None \<and>
      buffer_text (buffer s) \<noteq>
        current_text (closures s ! owner (tasks (on_text_changed s) ! j)) \<and>
      current_text (closures (on_text_changed s) ! owner (tasks (on_text_changed s) ! j)) =
        buffer_text (buffer s)) \<and>
   (\<forall>s'. text_changed at b p = Some s' \<longrightarrow>
      (\<exists>s1. advance at p = Some s1 \<and>
         (length (buffer_text b) < min_text_length \<longrightarrow> length (tasks s') = length (tasks s1)) \<and>
         (\<forall>j. length (tasks s1) \<le> j \<and> j < length (tasks s') \<longrightarrow>
            min_text_length < length (buffer_text b) \<and>
            task_text (tasks s' ! j) = buffer_text b \<and>
            owner (tasks s' ! j) < length (closures s1) \<and>
            agent (closures s1 ! owner (tasks s' ! j)) \<noteq> None \<and>
            buffer_text b \<noteq> current_text (closures s1 ! owner (tasks s' ! j)) \<and>
            current_text (closures s' ! owner (tasks s' ! j)) = buffer_text b))) \<and>
   (\<forall>s0 r. run_calls cs fresh = Some s0 \<and>
        run_events evs (begin_call d a gap s0) = Some r \<longrightarrow>
      (\<forall>q < length (closures r).
         current_text (closures r ! q) =
           (if texts_of q (tasks r) = [] then [] else last (texts_of q (tasks r)))))"
proof -
  have five: "min_text_length = 5" by (simp add: min_text_length_def)
  have short: "length (buffer_text (buffer s)) < min_text_length \<longrightarrow>
      length (tasks (handle_text_change k s)) = length (tasks s) \<and>
      length (tasks (on_text_changed s)) = length (tasks s)"
    using handle_text_change_start(1) [where s = s and k = k]
    by (simp add: on_text_changed_def fire_short)
  have handler: "length (tasks (handle_text_change k s)) \<noteq> length (tasks s) \<longrightarrow>
      min_text_length < length (buffer_text (buffer s)) \<and>
      buffer_text (buffer s) \<noteq> current_text (closures s ! k) \<and>
      agent (closures s ! k) \<noteq> None \<and>
      tasks (handle_text_change k s) = tasks (cancel_timer k s) @
        [\<lparr>owner = k, task_text = buffer_text (buffer s), started = clock s,
          wakes = clock s + typing_timeout (closures s ! k), state = Sleeping\<rparr>] \<and>
      current_text (closures (handle_text_change k s) ! k) = buffer_text (buffer s)"
    using handle_text_change_start(2) [where s = s and k = k] by blast
  have firing: "\<forall>j. length (tasks s) \<le> j \<and> j < length (tasks (on_text_changed s)) \<longrightarrow>
      min_text_length < length (buffer_text (buffer s)) \<and>
      task_text (tasks (on_text_changed s) ! j) = buffer_text (buffer s) \<and>
      owner (tasks (on_text_changed s) ! j) < length (closures s) \<and>
      agent (closures s ! owner (tasks (on_text_changed s) ! j)) \<noteq> None \<and>
      buffer_text (buffer s) \<noteq>
        current_text (closures s ! owner (tasks (on_text_changed s) ! j)) \<and>
      current_text (closures (on_text_changed s) ! owner (tasks (on_text_changed s) ! j)) =
        buffer_text (buffer s)"
    using on_text_changed_start [where x = s] by blast
  have event: "\<exists>s1. advance at p = Some s1 \<and>
         (length (buffer_text b) < min_text_length \<longrightarrow> length (tasks s') = length (tasks s1)) \<and>
         (\<forall>j. length (tasks s1) \<le> j \<and> j < length (tasks s') \<longrightarrow>
            min_text_length < length (buffer_text b) \<and>
            task_text (tasks s' ! j) = buffer_text b \<and>
            owner (tasks s' ! j) < length (closures s1) \<and>
            agent (closures s1 ! owner (tasks s' ! j)) \<noteq> None \<and>
            buffer_text b \<noteq> current_text (closures s1 ! owner (tasks s' ! j)) \<and>
            current_text (closures s' ! owner (tasks s' ! j)) = buffer_text b)"
    if run: "text_changed at b p = Some s'" for s'
  proof -
    from run obtain s1 where adv: "advance at p = Some s1"
      and s': "s' = on_text_changed (s1\<lparr>buffer := b\<rparr>)"
      by (rule text_changed_cases)
    let ?x = "s1\<lparr>buffer := b\<rparr>"
    have x: "buffer ?x = b" "tasks ?x = tasks s1" "closures ?x = closures s1" by simp_all
    have a: "length (buffer_text b) < min_text_length \<longrightarrow> length (tasks s') = length (tasks s1)"
      using fire_short [where s = ?x and ks = "[0..<length (closures ?x)]"]
      by (simp add: s' on_text_changed_def)
    have c: "\<forall>j. length (tasks s1) \<le> j \<and> j < length (tasks s') \<longrightarrow>
            min_text_length < length (buffer_text b) \<and>
            task_text (tasks s' ! j) = buffer_text b \<and>
            owner (tasks s' ! j) < length (closures s1) \<and>
            agent (closures s1 ! owner (tasks s' ! j)) \<noteq> None \<and>
            buffer_text b \<noteq> current_text (closures s1 ! owner (tasks s' ! j)) \<and>
            current_text (closures s' ! owner (tasks s' ! j)) = buffer_text b"
      using on_text_changed_start [where x = ?x] unfolding s' x by blast
    from adv a c show ?thesis by blast
  qed
  have tracked: "\<forall>q < length (closures r).
         current_text (closures r ! q) =
           (if texts_of q (tasks r) = [] then [] else last (texts_of q (tasks r)))"
    if "run_calls cs fresh = Some s0 \<and> run_events evs (begin_call d a gap s0) = Some r"
    for s0 r
  proof -
    from that have "text_tracked s0"
      using run_calls_tracked [OF fresh_tracked] by blast
    then have "text_tracked (begin_call d a gap s0)" by (rule begin_call_tracked)
    with that have "text_tracked r" using run_events_tracked by blast
    then show ?thesis by (simp add: text_tracked_def)
  qed
  from five short handler firing event tracked show ?thesis by blast
qed

theorem debounce_start_condition_witness:
  "(\<exists>s'. text_changed 100 \<lparr>buffer_text = ''hello world'', cursor_position = 11\<rparr>
        (begin_call []
           (Some (\<lambda>n t. \<lparr>finishes = Some 3000, outcome = Returns (Text ''try this''),
                          meanwhile = (\<lambda>b. b)\<rparr>)) 2500 fresh) = Some s' \<and>
      length (tasks s') = 1 \<and> min_text_length < length ''hello world'' \<and>
      task_text (tasks s' ! 0) = ''hello world'' \<and>
      current_text (closures s' ! 0) =
        (if texts_of 0 (tasks s') = [] then [] else last (texts_of 0 (tasks s')))) \<and>
   (\<exists>s'. text_changed 100 \<lparr>buffer_text = ''hell'', cursor_position = 4\<rparr>
        (begin_call []
           (Some (\<lambda>n t. \<lparr>finishes = Some 3000, outcome = Returns (Text ''try this''),
                          meanwhile = (\<lambda>b. b)\<rparr>)) 2500 fresh) = Some s' \<and>
      length ''hell'' < min_text_length \<and> length (tasks s') = 0)"
proof -
  let ?a = "Some (\<lambda>n t. \<lparr>finishes = Some 3000, outcome = Returns (Text ''try this''),
                          meanwhile = (\<lambda>b. b)\<rparr>)"
  let ?p = "begin_call [] ?a 2500 fresh"
  let ?long = "\<lparr>buffer_text = ''hello world'', cursor_position = 11\<rparr>"
  let ?short = "\<lparr>buffer_text = ''hell'', cursor_position = 4\<rparr>"
  have adv: "advance 100 ?p = Some (?p\<lparr>clock := 100\<rparr>)"
    by (simp add: run_defs)
  have t0: "tasks (?p\<lparr>clock := 100\<rparr>) = []"
    by (simp add: begin_call_def fresh_def)
  have "\<exists>s'. text_changed 100 ?long ?p = Some s' \<and> length (tasks s') = 1 \<and>
          length (closures s') = 1"
    by (simp add: run_defs)
  then obtain s1 where s1: "text_changed 100 ?long ?p = Some s1" "length (tasks s1) = 1"
    "length (closures s1) = 1"
    by (elim exE conjE) (rule that)
  note long = debounce_start_condition [where at = 100 and b = ?long and p = ?p
      and cs = "[]" and evs = "[(100, ?long)]" and d = "[]" and a = ?a and gap = 2500]
  note long_event = long [THEN conjunct2, THEN conjunct2, THEN conjunct2, THEN conjunct2,
      THEN conjunct1, rule_format, OF s1(1)]
  note long_tracked = long [THEN conjunct2, THEN conjunct2, THEN conjunct2, THEN conjunct2,
      THEN conjunct2, rule_format]
  from long_event obtain x where x: "advance 100 ?p = Some x"
    and new: "\<forall>j. length (tasks x) \<le> j \<and> j < length (tasks s1) \<longrightarrow>
            min_text_length < length (buffer_text ?long) \<and>
            task_text (tasks s1 ! j) = buffer_text ?long \<and>
            owner (tasks s1 ! j) < length (closures x) \<and>
            agent (closures x ! owner (tasks s1 ! j)) \<noteq> None \<and>
            buffer_text ?long \<noteq> current_text (closures x ! owner (tasks s1 ! j)) \<and>
            current_text (closures s1 ! owner (tasks s1 ! j)) = buffer_text ?long"
    by (elim exE conjE) (rule that)
  from x adv have "x = ?p\<lparr>clock := 100\<rparr>" by simp
  with t0 have tx: "length (tasks x) = 0" by simp
  from new [rule_format, of 0] tx s1(2)
  have "min_text_length < length (buffer_text ?long) \<and>
            task_text (tasks s1 ! 0) = buffer_text ?long"
    by simp
  then have first: "min_text_length < length ''hello world''"
    "task_text (tasks s1 ! 0) = ''hello world''"
    by simp_all
  have calls0: "run_calls [] fresh = Some (fresh :: char session)" by simp
  from s1(1) have ev: "run_events [(100, ?long)] ?p = Some s1" by simp
  from s1(3) have q: "0 < length (closures s1)" by simp
  from long_tracked [OF conjI [OF calls0 ev] q]
  have tracked: "current_text (closures s1 ! 0) =
        (if texts_of 0 (tasks s1) = [] then [] else last (texts_of 0 (tasks s1)))" .
  have "\<exists>s'. text_changed 100 ?short ?p = Some s'"
    by (simp add: run_defs)
  then obtain s2 where s2: "text_changed 100 ?short ?p = Some s2" by (elim exE) (rule that)
  have sh: "length (buffer_text ?short) < min_text_length" by (simp add: min_text_length_def)
  note short_event = debounce_start_condition [where at = 100 and b = ?short and p = ?p,
      THEN conjunct2, THEN conjunct2, THEN conjunct2, THEN conjunct2,
      THEN conjunct1, rule_format, OF s2]
  from short_event obtain y where y: "advance 100 ?p = Some y"
    and same: "length (buffer_text ?short) < min_text_length \<longrightarrow>
                 length (tasks s2) = length (tasks y)"
    by (elim exE conjE) (rule that)
  from y adv have "y = ?p\<lparr>clock := 100\<rparr>" by simp
  with t0 same sh have none: "length (tasks s2) = 0" by simp
  from sh have sh': "length ''hell'' < min_text_length" by simp
  from s1(1,2) first tracked
  have one: "text_changed 100 ?long ?p = Some s1 \<and>
      length (tasks s1) = 1 \<and> min_text_length < length ''hello world'' \<and>
      task_text (tasks s1 ! 0) = ''hello world'' \<and>
      current_text (closures s1 ! 0) =
        (if texts_of 0 (tasks s1) = [] then [] else last (texts_of 0 (tasks s1)))"
    by (intro conjI)
  from s2 sh' none
  have two: "text_changed 100 ?short ?p = Some s2 \<and>
      length ''hell'' < min_text_length \<and> length (tasks s2) = 0"
    by (intro conjI)
  from one have "\<exists>s'. text_changed 100 ?long ?p = Some s' \<and>
      length (tasks s') = 1 \<and> min_text_length < length ''hello world'' \<and>
      task_text (tasks s' ! 0) = ''hello world'' \<and>
      current_text (closures s' ! 0) =
        (if texts_of 0 (tasks s') = [] then [] else last (texts_of 0 (tasks s')))"
    by (rule exI)
  moreover from two have "\<exists>s'. text_changed 100 ?short ?p = Some s' \<and>
      length ''hell'' < min_text_length \<and> length (tasks s') = 0"
    by (rule exI)
  ultimately show ?thesis by (rule conjI)
qed

text \<open>
  C4, on a concrete input: the user types \<open>hello world\<close> and interrupts, or ends the
  input, before the idle threshold has passed. The call returns the default value, but
  the \<open>except\<close> clause does not reach the lines that cancel the timer: the timer is left
  sleeping (on the path of an accepted line it is cancelled), and the agent is invoked
  once the event loop runs on.
\<close>

theorem interrupt_keeps_timer:
  "map_option fst
     (get_user_input_async ''> '' ''fallback''
        (Some (\<lambda>n t. \<lparr>finishes = Some 3000, outcome = Returns (Text ''try this''), meanwhile = (\<lambda>b. b)\<rparr>))
        2500 [(100, \<lparr>buffer_text = ''hello world'', cursor_position = 11\<rparr>)] (200, KeyboardInterrupt) fresh)
     = Some ''fallback'' \<and>
   map_option (\<lambda>r. map state (tasks (snd r)))
     (get_user_input_async ''> '' ''fallback''
        (Some (\<lambda>n t. \<lparr>finishes = Some 3000, outcome = Returns (Text ''try this''), meanwhile = (\<lambda>b. b)\<rparr>))
        2500 [(100, \<lparr>buffer_text = ''hello world'', cursor_position = 11\<rparr>)] (200, KeyboardInterrupt) fresh)
     = Some [Sleeping] \<and>
   map_option (\<lambda>r. map state (tasks (snd r)))
     (get_user_input_async ''> '' ''fallback''
        (Some (\<lambda>n t. \<lparr>finishes = Some 3000, outcome = Returns (Text ''try this''), meanwhile = (\<lambda>b. b)\<rparr>))
        2500 [(100, \<lparr>buffer_text = ''hello world'', cursor_position = 11\<rparr>)] (200, EOFError) fresh)
     = Some [Sleeping] \<and>
   map_option (\<lambda>r. map state (tasks (snd r)))
     (get_user_input_async ''> '' ''fallback''
        (Some (\<lambda>n t. \<lparr>finishes = Some 3000, outcome = Returns (Text ''try this''), meanwhile = (\<lambda>b. b)\<rparr>))
        2500 [(100, \<lparr>buffer_text = ''hello world'', cursor_position = 11\<rparr>)] (200, Accept) fresh)
     = Some [Cancelled] \<and>
   map_option calls
     (Option.bind
        (get_user_input_async ''> '' ''fallback''
           (Some (\<lambda>n t. \<lparr>finishes = Some 3000, outcome = Returns (Text ''try this''), meanwhile = (\<lambda>b. b)\<rparr>))
           2500 [(100, \<lparr>buffer_text = ''hello world'', cursor_position = 11\<rparr>)] (200, KeyboardInterrupt) fresh)
        (\<lambda>r. advance 9000 (snd r)))
     = Some [''hello world'']"
  by (simp add: run_defs)

text \<open>
  C5, on a concrete input: an agent that answers after 60 seconds. \<open>future.result\<close>
  gives up after 10 seconds and nothing of the answer is shown, but leaving the \<open>with\<close>
  block waits for the worker thread, so \<open>launch_assistant\<close> holds the thread of the event
  loop, and with it the prompt, for the 60 seconds; with an agent that never answers it
  never returns.
\<close>

theorem slow_advisor_holds_prompt:
  "launch_assistant
     (Some (\<lambda>n t. \<lparr>finishes = Some 60000, outcome = Returns (Text ''try this''), meanwhile = (\<lambda>b. b)\<rparr>))
     0 ''hello world'' \<lparr>buffer_text = ''hello world'', cursor_position = 11\<rparr> =
     Some \<lparr>buffer_after = \<lparr>buffer_text = ''hello world'', cursor_position = 11\<rparr>,
           shown = [Thinking, Printed []], blocked_for = 60000, escaped = None, invoked = True,
           refired = False\<rparr> \<and>
   result_timeout = 10000 \<and>
   launch_assistant
     (Some (\<lambda>n t. \<lparr>finishes = None, outcome = Returns (Text ''try this''), meanwhile = (\<lambda>b. b)\<rparr>))
     0 ''hello world'' \<lparr>buffer_text = ''hello world'', cursor_position = 11\<rparr> = None"
  by (simp add: run_defs)

end
